theory Spec2Isabelle
  imports Main "HOL-Library.Sublist"
begin

section \<open>Text\<close>

text \<open>
  A JavaScript string is a sequence of UTF-16 code units, here a list of integers from 0 to
  65535; a character outside the Basic Multilingual Plane is a pair of surrogates. The
  functions below are total on lists of any integers, and what is proved of them holds for
  every such list. The regular expressions of the scripts have no \<^verbatim>\<open>u\<close> flag and work on code
  units. \<open>js\<close> gives the code units of a text written in ASCII, and \<open>of_char\<close> the code unit of
  one ASCII character.
\<close>

type_synonym unit16 = int

type_synonym jstring = "unit16 list"

definition js :: "string \<Rightarrow> jstring" where
  [simp]: "js s = map of_char s"

definition LF :: unit16 where
  "LF = 0x0A"

definition CR :: unit16 where
  "CR = 0x0D"

definition digit_chars :: jstring where
  "digit_chars = js ''0123456789''"

definition upper_chars :: jstring where
  "upper_chars = js ''ABCDEFGHIJKLMNOPQRSTUVWXYZ''"

definition lower_chars :: jstring where
  "lower_chars = js ''abcdefghijklmnopqrstuvwxyz''"

text \<open>The class \<^verbatim>\<open>\d\<close> is \<open>0-9\<close> and the class \<^verbatim>\<open>\w\<close> is \<open>A-Za-z0-9_\<close>.\<close>

definition is_digit :: "unit16 \<Rightarrow> bool" where
  "is_digit c = (c \<in> set digit_chars)"

definition is_upper :: "unit16 \<Rightarrow> bool" where
  "is_upper c = (c \<in> set upper_chars)"

definition is_word :: "unit16 \<Rightarrow> bool" where
  "is_word c = (c \<in> set upper_chars \<or> c \<in> set lower_chars \<or> c \<in> set digit_chars \<or> c = of_char CHR ''_'')"

text \<open>
  The line terminators, which \<^verbatim>\<open>.\<close> does not match and at which \<^verbatim>\<open>^\<close> and \<^verbatim>\<open>$\<close> match under the
  \<^verbatim>\<open>m\<close> flag: line feed, carriage return, line separator and paragraph separator.
\<close>

definition is_line_terminator :: "unit16 \<Rightarrow> bool" where
  "is_line_terminator c = (c = LF \<or> c = CR \<or> c = 0x2028 \<or> c = 0x2029)"

text \<open>
  The class \<^verbatim>\<open>\s\<close>, which is also what \<^verbatim>\<open>String.prototype.trim\<close> removes: the white space of
  the language (tab, vertical tab, form feed, the byte order mark and the space separators of
  Unicode) and the line terminators.
\<close>

definition is_space :: "unit16 \<Rightarrow> bool" where
  "is_space c =
     (c \<in> set [0x09, 0x0B, 0x0C, 0x20, 0xA0, 0x1680, 0x202F, 0x205F, 0x3000, 0xFEFF]
      \<or> (0x2000 \<le> c \<and> c \<le> 0x200A)
      \<or> is_line_terminator c)"

definition trim :: "jstring \<Rightarrow> jstring" where
  "trim s = rev (dropWhile is_space (rev (dropWhile is_space s)))"

text \<open>
  \<^verbatim>\<open>toLowerCase\<close> works on code points: a high surrogate followed by a low surrogate is one
  code point, any other code unit is a code point of its own.
\<close>

definition is_high_surrogate :: "unit16 \<Rightarrow> bool" where
  "is_high_surrogate c = (0xD800 \<le> c \<and> c \<le> 0xDBFF)"

definition is_low_surrogate :: "unit16 \<Rightarrow> bool" where
  "is_low_surrogate c = (0xDC00 \<le> c \<and> c \<le> 0xDFFF)"

fun code_points :: "jstring \<Rightarrow> int list" where
  "code_points (h # l # us) =
     (if is_high_surrogate h \<and> is_low_surrogate l
      then (0x10000 + (h - 0xD800) * 0x400 + (l - 0xDC00)) # code_points us
      else h # code_points (l # us))"
| "code_points us = us"

definition code_units :: "int \<Rightarrow> jstring" where
  "code_units cp =
     (if cp < 0x10000 then [cp]
      else [0xD800 + (cp - 0x10000) div 0x400, 0xDC00 + (cp - 0x10000) mod 0x400])"

text \<open>
  The lower case mapping of the Unicode Character Database (version 14.0), without the
  language-specific rules, which \<^verbatim>\<open>toLowerCase\<close> does not apply. In ASCII the capital
  letters map to the small ones and nothing else changes. Outside ASCII a row \<open>(lo, hi, step,
  offset)\<close> of \<open>lower_ranges\<close> says that the code points \<open>lo\<close>, \<open>lo + step\<close>, ... up to
  \<open>hi\<close> map to themselves plus \<open>offset\<close>. Capital I with dot above (U+0130) maps to two code
  points, and a code point in no row maps to itself.
\<close>

definition lower_ranges :: "(int \<times> int \<times> int \<times> int) list" where
  "lower_ranges =
     [
      (0x00C0, 0x00D6, 1, 32), (0x00D8, 0x00DE, 1, 32), (0x0100, 0x012E, 2, 1),
      (0x0132, 0x0136, 2, 1), (0x0139, 0x0147, 2, 1), (0x014A, 0x0176, 2, 1),
      (0x0178, 0x0178, 1, - 121), (0x0179, 0x017D, 2, 1), (0x0181, 0x0181, 1, 210),
      (0x0182, 0x0184, 2, 1), (0x0186, 0x0186, 1, 206), (0x0187, 0x0187, 1, 1),
      (0x0189, 0x018A, 1, 205), (0x018B, 0x018B, 1, 1), (0x018E, 0x018E, 1, 79),
      (0x018F, 0x018F, 1, 202), (0x0190, 0x0190, 1, 203), (0x0191, 0x0191, 1, 1),
      (0x0193, 0x0193, 1, 205), (0x0194, 0x0194, 1, 207), (0x0196, 0x0196, 1, 211),
      (0x0197, 0x0197, 1, 209), (0x0198, 0x0198, 1, 1), (0x019C, 0x019C, 1, 211),
      (0x019D, 0x019D, 1, 213), (0x019F, 0x019F, 1, 214), (0x01A0, 0x01A4, 2, 1),
      (0x01A6, 0x01A6, 1, 218), (0x01A7, 0x01A7, 1, 1), (0x01A9, 0x01A9, 1, 218),
      (0x01AC, 0x01AC, 1, 1), (0x01AE, 0x01AE, 1, 218), (0x01AF, 0x01AF, 1, 1),
      (0x01B1, 0x01B2, 1, 217), (0x01B3, 0x01B5, 2, 1), (0x01B7, 0x01B7, 1, 219),
      (0x01B8, 0x01B8, 1, 1), (0x01BC, 0x01BC, 1, 1), (0x01C4, 0x01C4, 1, 2),
      (0x01C5, 0x01C5, 1, 1), (0x01C7, 0x01C7, 1, 2), (0x01C8, 0x01C8, 1, 1),
      (0x01CA, 0x01CA, 1, 2), (0x01CB, 0x01DB, 2, 1), (0x01DE, 0x01EE, 2, 1),
      (0x01F1, 0x01F1, 1, 2), (0x01F2, 0x01F4, 2, 1), (0x01F6, 0x01F6, 1, - 97),
      (0x01F7, 0x01F7, 1, - 56), (0x01F8, 0x021E, 2, 1), (0x0220, 0x0220, 1, - 130),
      (0x0222, 0x0232, 2, 1), (0x023A, 0x023A, 1, 10795), (0x023B, 0x023B, 1, 1),
      (0x023D, 0x023D, 1, - 163), (0x023E, 0x023E, 1, 10792), (0x0241, 0x0241, 1, 1),
      (0x0243, 0x0243, 1, - 195), (0x0244, 0x0244, 1, 69), (0x0245, 0x0245, 1, 71),
      (0x0246, 0x024E, 2, 1), (0x0370, 0x0372, 2, 1), (0x0376, 0x0376, 1, 1),
      (0x037F, 0x037F, 1, 116), (0x0386, 0x0386, 1, 38), (0x0388, 0x038A, 1, 37),
      (0x038C, 0x038C, 1, 64), (0x038E, 0x038F, 1, 63), (0x0391, 0x03A1, 1, 32),
      (0x03A3, 0x03AB, 1, 32), (0x03CF, 0x03CF, 1, 8), (0x03D8, 0x03EE, 2, 1),
      (0x03F4, 0x03F4, 1, - 60), (0x03F7, 0x03F7, 1, 1), (0x03F9, 0x03F9, 1, - 7),
      (0x03FA, 0x03FA, 1, 1), (0x03FD, 0x03FF, 1, - 130), (0x0400, 0x040F, 1, 80),
      (0x0410, 0x042F, 1, 32), (0x0460, 0x0480, 2, 1), (0x048A, 0x04BE, 2, 1),
      (0x04C0, 0x04C0, 1, 15), (0x04C1, 0x04CD, 2, 1), (0x04D0, 0x052E, 2, 1),
      (0x0531, 0x0556, 1, 48), (0x10A0, 0x10C5, 1, 7264), (0x10C7, 0x10C7, 1, 7264),
      (0x10CD, 0x10CD, 1, 7264), (0x13A0, 0x13EF, 1, 38864), (0x13F0, 0x13F5, 1, 8),
      (0x1C90, 0x1CBA, 1, - 3008), (0x1CBD, 0x1CBF, 1, - 3008), (0x1E00, 0x1E94, 2, 1),
      (0x1E9E, 0x1E9E, 1, - 7615), (0x1EA0, 0x1EFE, 2, 1), (0x1F08, 0x1F0F, 1, - 8),
      (0x1F18, 0x1F1D, 1, - 8), (0x1F28, 0x1F2F, 1, - 8), (0x1F38, 0x1F3F, 1, - 8),
      (0x1F48, 0x1F4D, 1, - 8), (0x1F59, 0x1F5F, 2, - 8), (0x1F68, 0x1F6F, 1, - 8),
      (0x1F88, 0x1F8F, 1, - 8), (0x1F98, 0x1F9F, 1, - 8), (0x1FA8, 0x1FAF, 1, - 8),
      (0x1FB8, 0x1FB9, 1, - 8), (0x1FBA, 0x1FBB, 1, - 74), (0x1FBC, 0x1FBC, 1, - 9),
      (0x1FC8, 0x1FCB, 1, - 86), (0x1FCC, 0x1FCC, 1, - 9), (0x1FD8, 0x1FD9, 1, - 8),
      (0x1FDA, 0x1FDB, 1, - 100), (0x1FE8, 0x1FE9, 1, - 8), (0x1FEA, 0x1FEB, 1, - 112),
      (0x1FEC, 0x1FEC, 1, - 7), (0x1FF8, 0x1FF9, 1, - 128), (0x1FFA, 0x1FFB, 1, - 126),
      (0x1FFC, 0x1FFC, 1, - 9), (0x2126, 0x2126, 1, - 7517), (0x212A, 0x212A, 1, - 8383),
      (0x212B, 0x212B, 1, - 8262), (0x2132, 0x2132, 1, 28), (0x2160, 0x216F, 1, 16),
      (0x2183, 0x2183, 1, 1), (0x24B6, 0x24CF, 1, 26), (0x2C00, 0x2C2F, 1, 48),
      (0x2C60, 0x2C60, 1, 1), (0x2C62, 0x2C62, 1, - 10743), (0x2C63, 0x2C63, 1, - 3814),
      (0x2C64, 0x2C64, 1, - 10727), (0x2C67, 0x2C6B, 2, 1), (0x2C6D, 0x2C6D, 1, - 10780),
      (0x2C6E, 0x2C6E, 1, - 10749), (0x2C6F, 0x2C6F, 1, - 10783), (0x2C70, 0x2C70, 1, - 10782),
      (0x2C72, 0x2C72, 1, 1), (0x2C75, 0x2C75, 1, 1), (0x2C7E, 0x2C7F, 1, - 10815),
      (0x2C80, 0x2CE2, 2, 1), (0x2CEB, 0x2CED, 2, 1), (0x2CF2, 0x2CF2, 1, 1),
      (0xA640, 0xA66C, 2, 1), (0xA680, 0xA69A, 2, 1), (0xA722, 0xA72E, 2, 1),
      (0xA732, 0xA76E, 2, 1), (0xA779, 0xA77B, 2, 1), (0xA77D, 0xA77D, 1, - 35332),
      (0xA77E, 0xA786, 2, 1), (0xA78B, 0xA78B, 1, 1), (0xA78D, 0xA78D, 1, - 42280),
      (0xA790, 0xA792, 2, 1), (0xA796, 0xA7A8, 2, 1), (0xA7AA, 0xA7AA, 1, - 42308),
      (0xA7AB, 0xA7AB, 1, - 42319), (0xA7AC, 0xA7AC, 1, - 42315), (0xA7AD, 0xA7AD, 1, - 42305),
      (0xA7AE, 0xA7AE, 1, - 42308), (0xA7B0, 0xA7B0, 1, - 42258), (0xA7B1, 0xA7B1, 1, - 42282),
      (0xA7B2, 0xA7B2, 1, - 42261), (0xA7B3, 0xA7B3, 1, 928), (0xA7B4, 0xA7C2, 2, 1),
      (0xA7C4, 0xA7C4, 1, - 48), (0xA7C5, 0xA7C5, 1, - 42307), (0xA7C6, 0xA7C6, 1, - 35384),
      (0xA7C7, 0xA7C9, 2, 1), (0xA7D0, 0xA7D0, 1, 1), (0xA7D6, 0xA7D8, 2, 1),
      (0xA7F5, 0xA7F5, 1, 1), (0xFF21, 0xFF3A, 1, 32), (0x10400, 0x10427, 1, 40),
      (0x104B0, 0x104D3, 1, 40), (0x10570, 0x1057A, 1, 39), (0x1057C, 0x1058A, 1, 39),
      (0x1058C, 0x10592, 1, 39), (0x10594, 0x10595, 1, 39), (0x10C80, 0x10CB2, 1, 64),
      (0x118A0, 0x118BF, 1, 32), (0x16E40, 0x16E5F, 1, 32), (0x1E900, 0x1E921, 1, 34)]"

definition lower_mapping :: "int \<Rightarrow> int list" where
  "lower_mapping cp =
     (if 0x0041 \<le> cp \<and> cp \<le> 0x005A then [cp + 0x20]
      else if cp < 0x0080 then [cp]
      else if cp = 0x0130 then [0x0069, 0x0307]
      else (case List.find (\<lambda>(lo, hi, step, offset).
                     lo \<le> cp \<and> cp \<le> hi \<and> (cp - lo) mod step = 0) lower_ranges of
              None \<Rightarrow> [cp]
            | Some (lo, hi, step, offset) \<Rightarrow> [cp + offset]))"

text \<open>
  Capital sigma (U+03A3) maps to the final form U+03C2 where it ends a word and to U+03C3
  elsewhere: it ends a word when a cased letter stands before it, with only case-ignorable
  code points between, and no cased letter stands after it in the same way. The two tables
  give the ranges of the properties \<open>Case_Ignorable\<close> and \<open>Cased\<close>.
\<close>

definition case_ignorable_ranges :: "(int \<times> int) list" where
  "case_ignorable_ranges =
     [
      (0x0027, 0x0027), (0x002E, 0x002E), (0x003A, 0x003A), (0x005E, 0x005E), (0x0060, 0x0060),
      (0x00A8, 0x00A8), (0x00AD, 0x00AD), (0x00AF, 0x00AF), (0x00B4, 0x00B4), (0x00B7, 0x00B8),
      (0x02B0, 0x036F), (0x0374, 0x0375), (0x037A, 0x037A), (0x0384, 0x0385), (0x0387, 0x0387),
      (0x0483, 0x0489), (0x0559, 0x0559), (0x055F, 0x055F), (0x0591, 0x05BD), (0x05BF, 0x05BF),
      (0x05C1, 0x05C2), (0x05C4, 0x05C5), (0x05C7, 0x05C7), (0x05F4, 0x05F4), (0x0600, 0x0605),
      (0x0610, 0x061A), (0x061C, 0x061C), (0x0640, 0x0640), (0x064B, 0x065F), (0x0670, 0x0670),
      (0x06D6, 0x06DD), (0x06DF, 0x06E8), (0x06EA, 0x06ED), (0x070F, 0x070F), (0x0711, 0x0711),
      (0x0730, 0x074A), (0x07A6, 0x07B0), (0x07EB, 0x07F5), (0x07FA, 0x07FA), (0x07FD, 0x07FD),
      (0x0816, 0x082D), (0x0859, 0x085B), (0x0888, 0x0888), (0x0890, 0x0891), (0x0898, 0x089F),
      (0x08C9, 0x0902), (0x093A, 0x093A), (0x093C, 0x093C), (0x0941, 0x0948), (0x094D, 0x094D),
      (0x0951, 0x0957), (0x0962, 0x0963), (0x0971, 0x0971), (0x0981, 0x0981), (0x09BC, 0x09BC),
      (0x09C1, 0x09C4), (0x09CD, 0x09CD), (0x09E2, 0x09E3), (0x09FE, 0x09FE), (0x0A01, 0x0A02),
      (0x0A3C, 0x0A3C), (0x0A41, 0x0A42), (0x0A47, 0x0A48), (0x0A4B, 0x0A4D), (0x0A51, 0x0A51),
      (0x0A70, 0x0A71), (0x0A75, 0x0A75), (0x0A81, 0x0A82), (0x0ABC, 0x0ABC), (0x0AC1, 0x0AC5),
      (0x0AC7, 0x0AC8), (0x0ACD, 0x0ACD), (0x0AE2, 0x0AE3), (0x0AFA, 0x0AFF), (0x0B01, 0x0B01),
      (0x0B3C, 0x0B3C), (0x0B3F, 0x0B3F), (0x0B41, 0x0B44), (0x0B4D, 0x0B4D), (0x0B55, 0x0B56),
      (0x0B62, 0x0B63), (0x0B82, 0x0B82), (0x0BC0, 0x0BC0), (0x0BCD, 0x0BCD), (0x0C00, 0x0C00),
      (0x0C04, 0x0C04), (0x0C3C, 0x0C3C), (0x0C3E, 0x0C40), (0x0C46, 0x0C48), (0x0C4A, 0x0C4D),
      (0x0C55, 0x0C56), (0x0C62, 0x0C63), (0x0C81, 0x0C81), (0x0CBC, 0x0CBC), (0x0CBF, 0x0CBF),
      (0x0CC6, 0x0CC6), (0x0CCC, 0x0CCD), (0x0CE2, 0x0CE3), (0x0D00, 0x0D01), (0x0D3B, 0x0D3C),
      (0x0D41, 0x0D44), (0x0D4D, 0x0D4D), (0x0D62, 0x0D63), (0x0D81, 0x0D81), (0x0DCA, 0x0DCA),
      (0x0DD2, 0x0DD4), (0x0DD6, 0x0DD6), (0x0E31, 0x0E31), (0x0E34, 0x0E3A), (0x0E46, 0x0E4E),
      (0x0EB1, 0x0EB1), (0x0EB4, 0x0EBC), (0x0EC6, 0x0EC6), (0x0EC8, 0x0ECD), (0x0F18, 0x0F19),
      (0x0F35, 0x0F35), (0x0F37, 0x0F37), (0x0F39, 0x0F39), (0x0F71, 0x0F7E), (0x0F80, 0x0F84),
      (0x0F86, 0x0F87), (0x0F8D, 0x0F97), (0x0F99, 0x0FBC), (0x0FC6, 0x0FC6), (0x102D, 0x1030),
      (0x1032, 0x1037), (0x1039, 0x103A), (0x103D, 0x103E), (0x1058, 0x1059), (0x105E, 0x1060),
      (0x1071, 0x1074), (0x1082, 0x1082), (0x1085, 0x1086), (0x108D, 0x108D), (0x109D, 0x109D),
      (0x10FC, 0x10FC), (0x135D, 0x135F), (0x1712, 0x1714), (0x1732, 0x1733), (0x1752, 0x1753),
      (0x1772, 0x1773), (0x17B4, 0x17B5), (0x17B7, 0x17BD), (0x17C6, 0x17C6), (0x17C9, 0x17D3),
      (0x17D7, 0x17D7), (0x17DD, 0x17DD), (0x180B, 0x180F), (0x1843, 0x1843), (0x1885, 0x1886),
      (0x18A9, 0x18A9), (0x1920, 0x1922), (0x1927, 0x1928), (0x1932, 0x1932), (0x1939, 0x193B),
      (0x1A17, 0x1A18), (0x1A1B, 0x1A1B), (0x1A56, 0x1A56), (0x1A58, 0x1A5E), (0x1A60, 0x1A60),
      (0x1A62, 0x1A62), (0x1A65, 0x1A6C), (0x1A73, 0x1A7C), (0x1A7F, 0x1A7F), (0x1AA7, 0x1AA7),
      (0x1AB0, 0x1ACE), (0x1B00, 0x1B03), (0x1B34, 0x1B34), (0x1B36, 0x1B3A), (0x1B3C, 0x1B3C),
      (0x1B42, 0x1B42), (0x1B6B, 0x1B73), (0x1B80, 0x1B81), (0x1BA2, 0x1BA5), (0x1BA8, 0x1BA9),
      (0x1BAB, 0x1BAD), (0x1BE6, 0x1BE6), (0x1BE8, 0x1BE9), (0x1BED, 0x1BED), (0x1BEF, 0x1BF1),
      (0x1C2C, 0x1C33), (0x1C36, 0x1C37), (0x1C78, 0x1C7D), (0x1CD0, 0x1CD2), (0x1CD4, 0x1CE0),
      (0x1CE2, 0x1CE8), (0x1CED, 0x1CED), (0x1CF4, 0x1CF4), (0x1CF8, 0x1CF9), (0x1D2C, 0x1D6A),
      (0x1D78, 0x1D78), (0x1D9B, 0x1DFF), (0x1FBD, 0x1FBD), (0x1FBF, 0x1FC1), (0x1FCD, 0x1FCF),
      (0x1FDD, 0x1FDF), (0x1FED, 0x1FEF), (0x1FFD, 0x1FFE), (0x200B, 0x200F), (0x2018, 0x2019),
      (0x2024, 0x2024), (0x2027, 0x2027), (0x202A, 0x202E), (0x2060, 0x2064), (0x2066, 0x206F),
      (0x2071, 0x2071), (0x207F, 0x207F), (0x2090, 0x209C), (0x20D0, 0x20F0), (0x2C7C, 0x2C7D),
      (0x2CEF, 0x2CF1), (0x2D6F, 0x2D6F), (0x2D7F, 0x2D7F), (0x2DE0, 0x2DFF), (0x2E2F, 0x2E2F),
      (0x3005, 0x3005), (0x302A, 0x302D), (0x3031, 0x3035), (0x303B, 0x303B), (0x3099, 0x309E),
      (0x30FC, 0x30FE), (0xA015, 0xA015), (0xA4F8, 0xA4FD), (0xA60C, 0xA60C), (0xA66F, 0xA672),
      (0xA674, 0xA67D), (0xA67F, 0xA67F), (0xA69C, 0xA69F), (0xA6F0, 0xA6F1), (0xA700, 0xA721),
      (0xA770, 0xA770), (0xA788, 0xA78A), (0xA7F2, 0xA7F4), (0xA7F8, 0xA7F9), (0xA802, 0xA802),
      (0xA806, 0xA806), (0xA80B, 0xA80B), (0xA825, 0xA826), (0xA82C, 0xA82C), (0xA8C4, 0xA8C5),
      (0xA8E0, 0xA8F1), (0xA8FF, 0xA8FF), (0xA926, 0xA92D), (0xA947, 0xA951), (0xA980, 0xA982),
      (0xA9B3, 0xA9B3), (0xA9B6, 0xA9B9), (0xA9BC, 0xA9BD), (0xA9CF, 0xA9CF), (0xA9E5, 0xA9E6),
      (0xAA29, 0xAA2E), (0xAA31, 0xAA32), (0xAA35, 0xAA36), (0xAA43, 0xAA43), (0xAA4C, 0xAA4C),
      (0xAA70, 0xAA70), (0xAA7C, 0xAA7C), (0xAAB0, 0xAAB0), (0xAAB2, 0xAAB4), (0xAAB7, 0xAAB8),
      (0xAABE, 0xAABF), (0xAAC1, 0xAAC1), (0xAADD, 0xAADD), (0xAAEC, 0xAAED), (0xAAF3, 0xAAF4),
      (0xAAF6, 0xAAF6), (0xAB5B, 0xAB5F), (0xAB69, 0xAB6B), (0xABE5, 0xABE5), (0xABE8, 0xABE8),
      (0xABED, 0xABED), (0xFB1E, 0xFB1E), (0xFBB2, 0xFBC2), (0xFE00, 0xFE0F), (0xFE13, 0xFE13),
      (0xFE20, 0xFE2F), (0xFE52, 0xFE52), (0xFE55, 0xFE55), (0xFEFF, 0xFEFF), (0xFF07, 0xFF07),
      (0xFF0E, 0xFF0E), (0xFF1A, 0xFF1A), (0xFF3E, 0xFF3E), (0xFF40, 0xFF40), (0xFF70, 0xFF70),
      (0xFF9E, 0xFF9F), (0xFFE3, 0xFFE3), (0xFFF9, 0xFFFB), (0x101FD, 0x101FD), (0x102E0, 0x102E0),
      (0x10376, 0x1037A), (0x10780, 0x10785), (0x10787, 0x107B0), (0x107B2, 0x107BA), (0x10A01, 0x10A03),
      (0x10A05, 0x10A06), (0x10A0C, 0x10A0F), (0x10A38, 0x10A3A), (0x10A3F, 0x10A3F), (0x10AE5, 0x10AE6),
      (0x10D24, 0x10D27), (0x10EAB, 0x10EAC), (0x10F46, 0x10F50), (0x10F82, 0x10F85), (0x11001, 0x11001),
      (0x11038, 0x11046), (0x11070, 0x11070), (0x11073, 0x11074), (0x1107F, 0x11081), (0x110B3, 0x110B6),
      (0x110B9, 0x110BA), (0x110BD, 0x110BD), (0x110C2, 0x110C2), (0x110CD, 0x110CD), (0x11100, 0x11102),
      (0x11127, 0x1112B), (0x1112D, 0x11134), (0x11173, 0x11173), (0x11180, 0x11181), (0x111B6, 0x111BE),
      (0x111C9, 0x111CC), (0x111CF, 0x111CF), (0x1122F, 0x11231), (0x11234, 0x11234), (0x11236, 0x11237),
      (0x1123E, 0x1123E), (0x112DF, 0x112DF), (0x112E3, 0x112EA), (0x11300, 0x11301), (0x1133B, 0x1133C),
      (0x11340, 0x11340), (0x11366, 0x1136C), (0x11370, 0x11374), (0x11438, 0x1143F), (0x11442, 0x11444),
      (0x11446, 0x11446), (0x1145E, 0x1145E), (0x114B3, 0x114B8), (0x114BA, 0x114BA), (0x114BF, 0x114C0),
      (0x114C2, 0x114C3), (0x115B2, 0x115B5), (0x115BC, 0x115BD), (0x115BF, 0x115C0), (0x115DC, 0x115DD),
      (0x11633, 0x1163A), (0x1163D, 0x1163D), (0x1163F, 0x11640), (0x116AB, 0x116AB), (0x116AD, 0x116AD),
      (0x116B0, 0x116B5), (0x116B7, 0x116B7), (0x1171D, 0x1171F), (0x11722, 0x11725), (0x11727, 0x1172B),
      (0x1182F, 0x11837), (0x11839, 0x1183A), (0x1193B, 0x1193C), (0x1193E, 0x1193E), (0x11943, 0x11943),
      (0x119D4, 0x119D7), (0x119DA, 0x119DB), (0x119E0, 0x119E0), (0x11A01, 0x11A0A), (0x11A33, 0x11A38),
      (0x11A3B, 0x11A3E), (0x11A47, 0x11A47), (0x11A51, 0x11A56), (0x11A59, 0x11A5B), (0x11A8A, 0x11A96),
      (0x11A98, 0x11A99), (0x11C30, 0x11C36), (0x11C38, 0x11C3D), (0x11C3F, 0x11C3F), (0x11C92, 0x11CA7),
      (0x11CAA, 0x11CB0), (0x11CB2, 0x11CB3), (0x11CB5, 0x11CB6), (0x11D31, 0x11D36), (0x11D3A, 0x11D3A),
      (0x11D3C, 0x11D3D), (0x11D3F, 0x11D45), (0x11D47, 0x11D47), (0x11D90, 0x11D91), (0x11D95, 0x11D95),
      (0x11D97, 0x11D97), (0x11EF3, 0x11EF4), (0x13430, 0x13438), (0x16AF0, 0x16AF4), (0x16B30, 0x16B36),
      (0x16B40, 0x16B43), (0x16F4F, 0x16F4F), (0x16F8F, 0x16F9F), (0x16FE0, 0x16FE1), (0x16FE3, 0x16FE4),
      (0x1AFF0, 0x1AFF3), (0x1AFF5, 0x1AFFB), (0x1AFFD, 0x1AFFE), (0x1BC9D, 0x1BC9E), (0x1BCA0, 0x1BCA3),
      (0x1CF00, 0x1CF2D), (0x1CF30, 0x1CF46), (0x1D167, 0x1D169), (0x1D173, 0x1D182), (0x1D185, 0x1D18B),
      (0x1D1AA, 0x1D1AD), (0x1D242, 0x1D244), (0x1DA00, 0x1DA36), (0x1DA3B, 0x1DA6C), (0x1DA75, 0x1DA75),
      (0x1DA84, 0x1DA84), (0x1DA9B, 0x1DA9F), (0x1DAA1, 0x1DAAF), (0x1E000, 0x1E006), (0x1E008, 0x1E018),
      (0x1E01B, 0x1E021), (0x1E023, 0x1E024), (0x1E026, 0x1E02A), (0x1E130, 0x1E13D), (0x1E2AE, 0x1E2AE),
      (0x1E2EC, 0x1E2EF), (0x1E8D0, 0x1E8D6), (0x1E944, 0x1E94B), (0x1F3FB, 0x1F3FF), (0xE0001, 0xE0001),
      (0xE0020, 0xE007F), (0xE0100, 0xE01EF)]"

definition cased_ranges :: "(int \<times> int) list" where
  "cased_ranges =
     [
      (0x0041, 0x005A), (0x0061, 0x007A), (0x00AA, 0x00AA), (0x00B5, 0x00B5), (0x00BA, 0x00BA),
      (0x00C0, 0x00D6), (0x00D8, 0x00F6), (0x00F8, 0x01BA), (0x01BC, 0x01BF), (0x01C4, 0x0293),
      (0x0295, 0x02B8), (0x02C0, 0x02C1), (0x02E0, 0x02E4), (0x0345, 0x0345), (0x0370, 0x0373),
      (0x0376, 0x0377), (0x037A, 0x037D), (0x037F, 0x037F), (0x0386, 0x0386), (0x0388, 0x038A),
      (0x038C, 0x038C), (0x038E, 0x03A1), (0x03A3, 0x03F5), (0x03F7, 0x0481), (0x048A, 0x052F),
      (0x0531, 0x0556), (0x0560, 0x0588), (0x10A0, 0x10C5), (0x10C7, 0x10C7), (0x10CD, 0x10CD),
      (0x10D0, 0x10FA), (0x10FD, 0x10FF), (0x13A0, 0x13F5), (0x13F8, 0x13FD), (0x1C80, 0x1C88),
      (0x1C90, 0x1CBA), (0x1CBD, 0x1CBF), (0x1D00, 0x1DBF), (0x1E00, 0x1F15), (0x1F18, 0x1F1D),
      (0x1F20, 0x1F45), (0x1F48, 0x1F4D), (0x1F50, 0x1F57), (0x1F59, 0x1F59), (0x1F5B, 0x1F5B),
      (0x1F5D, 0x1F5D), (0x1F5F, 0x1F7D), (0x1F80, 0x1FB4), (0x1FB6, 0x1FBC), (0x1FBE, 0x1FBE),
      (0x1FC2, 0x1FC4), (0x1FC6, 0x1FCC), (0x1FD0, 0x1FD3), (0x1FD6, 0x1FDB), (0x1FE0, 0x1FEC),
      (0x1FF2, 0x1FF4), (0x1FF6, 0x1FFC), (0x2071, 0x2071), (0x207F, 0x207F), (0x2090, 0x209C),
      (0x2102, 0x2102), (0x2107, 0x2107), (0x210A, 0x2113), (0x2115, 0x2115), (0x2119, 0x211D),
      (0x2124, 0x2124), (0x2126, 0x2126), (0x2128, 0x2128), (0x212A, 0x212D), (0x212F, 0x2134),
      (0x2139, 0x2139), (0x213C, 0x213F), (0x2145, 0x2149), (0x214E, 0x214E), (0x2160, 0x217F),
      (0x2183, 0x2184), (0x24B6, 0x24E9), (0x2C00, 0x2CE4), (0x2CEB, 0x2CEE), (0x2CF2, 0x2CF3),
      (0x2D00, 0x2D25), (0x2D27, 0x2D27), (0x2D2D, 0x2D2D), (0xA640, 0xA66D), (0xA680, 0xA69D),
      (0xA722, 0xA787), (0xA78B, 0xA78E), (0xA790, 0xA7CA), (0xA7D0, 0xA7D1), (0xA7D3, 0xA7D3),
      (0xA7D5, 0xA7D9), (0xA7F5, 0xA7F6), (0xA7F8, 0xA7FA), (0xAB30, 0xAB5A), (0xAB5C, 0xAB68),
      (0xAB70, 0xABBF), (0xFB00, 0xFB06), (0xFB13, 0xFB17), (0xFF21, 0xFF3A), (0xFF41, 0xFF5A),
      (0x10400, 0x1044F), (0x104B0, 0x104D3), (0x104D8, 0x104FB), (0x10570, 0x1057A), (0x1057C, 0x1058A),
      (0x1058C, 0x10592), (0x10594, 0x10595), (0x10597, 0x105A1), (0x105A3, 0x105B1), (0x105B3, 0x105B9),
      (0x105BB, 0x105BC), (0x10780, 0x10780), (0x10783, 0x10785), (0x10787, 0x107B0), (0x107B2, 0x107BA),
      (0x10C80, 0x10CB2), (0x10CC0, 0x10CF2), (0x118A0, 0x118DF), (0x16E40, 0x16E7F), (0x1D400, 0x1D454),
      (0x1D456, 0x1D49C), (0x1D49E, 0x1D49F), (0x1D4A2, 0x1D4A2), (0x1D4A5, 0x1D4A6), (0x1D4A9, 0x1D4AC),
      (0x1D4AE, 0x1D4B9), (0x1D4BB, 0x1D4BB), (0x1D4BD, 0x1D4C3), (0x1D4C5, 0x1D505), (0x1D507, 0x1D50A),
      (0x1D50D, 0x1D514), (0x1D516, 0x1D51C), (0x1D51E, 0x1D539), (0x1D53B, 0x1D53E), (0x1D540, 0x1D544),
      (0x1D546, 0x1D546), (0x1D54A, 0x1D550), (0x1D552, 0x1D6A5), (0x1D6A8, 0x1D6C0), (0x1D6C2, 0x1D6DA),
      (0x1D6DC, 0x1D6FA), (0x1D6FC, 0x1D714), (0x1D716, 0x1D734), (0x1D736, 0x1D74E), (0x1D750, 0x1D76E),
      (0x1D770, 0x1D788), (0x1D78A, 0x1D7A8), (0x1D7AA, 0x1D7C2), (0x1D7C4, 0x1D7CB), (0x1DF00, 0x1DF09),
      (0x1DF0B, 0x1DF1E), (0x1E900, 0x1E943), (0x1F130, 0x1F149), (0x1F150, 0x1F169), (0x1F170, 0x1F189)]"

definition in_ranges :: "(int \<times> int) list \<Rightarrow> int \<Rightarrow> bool" where
  "in_ranges table cp = list_ex (\<lambda>(lo, hi). lo \<le> cp \<and> cp \<le> hi) table"

definition case_ignorable :: "int \<Rightarrow> bool" where
  "case_ignorable cp = in_ranges case_ignorable_ranges cp"

definition cased :: "int \<Rightarrow> bool" where
  "cased cp = in_ranges cased_ranges cp"

text \<open>\<open>before\<close> holds the code points before the sigma, the nearest first.\<close>

definition final_sigma :: "int list \<Rightarrow> int list \<Rightarrow> bool" where
  "final_sigma before after =
     ((case dropWhile case_ignorable before of [] \<Rightarrow> False | cp # cps \<Rightarrow> cased cp)
      \<and> (case dropWhile case_ignorable after of [] \<Rightarrow> True | cp # cps \<Rightarrow> \<not> cased cp))"

fun lower_points :: "int list \<Rightarrow> int list \<Rightarrow> int list" where
  "lower_points before [] = []"
| "lower_points before (cp # cps) =
     (if cp = 0x03A3 then [if final_sigma before cps then 0x03C2 else 0x03C3]
      else lower_mapping cp)
     @ lower_points (cp # before) cps"

definition toLowerCase :: "jstring \<Rightarrow> jstring" where
  "toLowerCase s = concat (map code_units (lower_points [] (code_points s)))"

text \<open>Template literals print a number in decimal.\<close>

definition index_of_digit :: "unit16 \<Rightarrow> nat" where
  "index_of_digit c = length (takeWhile (\<lambda>d. d \<noteq> c) digit_chars)"

fun string_of_nat :: "nat \<Rightarrow> jstring" where
  "string_of_nat n =
     (if n < 10 then [digit_chars ! n]
      else string_of_nat (n div 10) @ [digit_chars ! (n mod 10)])"

declare string_of_nat.simps [simp del]

section \<open>Anchor generator\<close>

text \<open>
  \<^verbatim>\<open>createAnchor(title)\<close> is
  \<^verbatim>\<open>title.toLowerCase().replace(/[^\w\s-]/g, '').replace(/\s+/g, '-')\<close>.
  The first replacement deletes every character outside the class; the second scans from the
  left and replaces each match of \<^verbatim>\<open>\s+\<close>, which is greedy and so takes the whole run.
\<close>

definition strip_non_word :: "jstring \<Rightarrow> jstring" where
  "strip_non_word s = filter (\<lambda>c. is_word c \<or> is_space c \<or> c = of_char CHR ''-'') s"

function replace_ws_runs :: "jstring \<Rightarrow> jstring" where
  "replace_ws_runs [] = []"
| "replace_ws_runs (c # cs) =
     (if is_space c then of_char CHR ''-'' # replace_ws_runs (dropWhile is_space cs)
      else c # replace_ws_runs cs)"
  by pat_completeness auto
termination
  by (relation "measure length") (auto simp: length_dropWhile_le less_Suc_eq_le)

definition createAnchor :: "jstring \<Rightarrow> jstring" where
  "createAnchor title = replace_ws_runs (strip_non_word (toLowerCase title))"

text \<open>
  The contract of the anchor generator in the specification's words: each maximal run of
  whitespace becomes one hyphen. \<open>runs P\<close> cuts a list into its maximal runs of elements on
  which \<open>P\<close> has the same value.
\<close>

function runs :: "('a \<Rightarrow> bool) \<Rightarrow> 'a list \<Rightarrow> 'a list list" where
  "runs P [] = []"
| "runs P (x # xs) =
     (x # takeWhile (\<lambda>y. P y = P x) xs) # runs P (dropWhile (\<lambda>y. P y = P x) xs)"
  by pat_completeness auto
termination
  by (relation "measure (\<lambda>(P, xs). length xs)") (auto simp: length_dropWhile_le less_Suc_eq_le)

definition collapse_ws_spec :: "jstring \<Rightarrow> jstring" where
  "collapse_ws_spec s = concat (map (\<lambda>r. if is_space (hd r) then js ''-'' else r) (runs is_space s))"

text \<open>The characters an anchor is made of: lower-case letters, digits, underscore and hyphen.\<close>

definition anchor_char :: "unit16 \<Rightarrow> bool" where
  "anchor_char c = (c \<in> set lower_chars \<or> c \<in> set digit_chars \<or> c = of_char CHR ''_'' \<or> c = of_char CHR ''-'')"

section \<open>Regular expressions\<close>

text \<open>
  \<^verbatim>\<open>RegExp.prototype.exec\<close> tries the pattern at every position from \<^verbatim>\<open>lastIndex\<close> to the
  end of the text and returns the leftmost position where it matches. The pattern itself is
  given as a function from the text and a position to the match there, if any.
\<close>

fun first_match :: "(jstring \<Rightarrow> nat \<Rightarrow> 'm option) \<Rightarrow> jstring \<Rightarrow> nat list \<Rightarrow> (nat \<times> 'm) option" where
  "first_match match_at s [] = None"
| "first_match match_at s (p # ps) =
     (case match_at s p of
        Some m \<Rightarrow> Some (p, m)
      | None \<Rightarrow> first_match match_at s ps)"

definition regex_exec :: "(jstring \<Rightarrow> nat \<Rightarrow> 'm option) \<Rightarrow> jstring \<Rightarrow> nat \<Rightarrow> (nat \<times> 'm) option" where
  "regex_exec match_at s lastIndex = first_match match_at s [lastIndex ..< Suc (length s)]"

text \<open>\<^verbatim>\<open>^\<close> under the \<^verbatim>\<open>m\<close> flag: the start of the text or the position after a line terminator.\<close>

definition at_line_start :: "jstring \<Rightarrow> nat \<Rightarrow> bool" where
  "at_line_start s p = (p = 0 \<or> (p \<le> length s \<and> is_line_terminator (s ! (p - 1))))"

text \<open>JavaScript's \<^verbatim>\<open>split\<close> and \<^verbatim>\<open>join\<close> with a one-character separator.\<close>

fun split_on :: "unit16 \<Rightarrow> jstring \<Rightarrow> jstring list" where
  "split_on d [] = [[]]"
| "split_on d (c # cs) =
     (if c = d then [] # split_on d cs
      else (case split_on d cs of
              [] \<Rightarrow> [[c]]
            | x # xs \<Rightarrow> (c # x) # xs))"

fun join :: "jstring \<Rightarrow> jstring list \<Rightarrow> jstring" where
  "join sep [] = []"
| "join sep [x] = x"
| "join sep (x # y # ys) = x @ sep @ join sep (y # ys)"

section \<open>Objects\<close>

text \<open>
  The frontmatter is an ordinary JavaScript object created by \<^verbatim>\<open>{}\<close> with string values. It is
  modelled by its own properties in creation order. Assigning to an existing key keeps the
  key's place; assigning a string to \<^verbatim>\<open>__proto__\<close> reaches the setter inherited from
  \<^verbatim>\<open>Object.prototype\<close>, which ignores a value that is not an object, so no property is created.
  \<^verbatim>\<open>Object.entries\<close> lists the keys that are array indices (canonical decimal numerals below
  \<open>2\<^sup>3\<^sup>2 - 1\<close>) first, in ascending numeric order, and then the other keys in creation order.
  Reading a key that is not an own property yields \<^verbatim>\<open>undefined\<close> for every key the script
  reads (\<^verbatim>\<open>name\<close>, \<^verbatim>\<open>description\<close>, \<^verbatim>\<open>impact\<close>): \<^verbatim>\<open>Object.prototype\<close> has none of them.
\<close>

type_synonym js_object = "(jstring \<times> jstring) list"

definition obj_set :: "js_object \<Rightarrow> jstring \<Rightarrow> jstring \<Rightarrow> js_object" where
  "obj_set obj k v =
     (if k = js ''__proto__'' then obj
      else if k \<in> fst ` set obj then map (\<lambda>(k', v'). if k' = k then (k', v) else (k', v')) obj
      else obj @ [(k, v)])"

definition obj_get :: "js_object \<Rightarrow> jstring \<Rightarrow> jstring option" where
  "obj_get obj k = map_of obj k"

fun digits_value :: "int \<Rightarrow> jstring \<Rightarrow> int" where
  "digits_value acc [] = acc"
| "digits_value acc (c # cs) = digits_value (10 * acc + int (index_of_digit c)) cs"

definition is_array_index :: "jstring \<Rightarrow> bool" where
  "is_array_index k =
     (k \<noteq> [] \<and> list_all is_digit k \<and> (k = js ''0'' \<or> hd k \<noteq> of_char CHR ''0'')
      \<and> digits_value 0 k \<le> 4294967294)"

definition entries :: "js_object \<Rightarrow> (jstring \<times> jstring) list" where
  "entries obj =
     sort_key (\<lambda>(k, v). digits_value 0 k) (filter (\<lambda>(k, v). is_array_index k) obj)
       @ filter (\<lambda>(k, v). \<not> is_array_index k) obj"

text \<open>\<^verbatim>\<open>x || d\<close> for a property read: \<^verbatim>\<open>undefined\<close> and the empty string are falsy.\<close>

definition or_else :: "jstring option \<Rightarrow> jstring \<Rightarrow> jstring" where
  "or_else x d = (case x of None \<Rightarrow> d | Some v \<Rightarrow> if v = [] then d else v)"

definition truthy :: "jstring option \<Rightarrow> bool" where
  "truthy x = (case x of None \<Rightarrow> False | Some v \<Rightarrow> v \<noteq> [])"

section \<open>Frontmatter parser\<close>

text \<open>
  \<^verbatim>\<open>/^---\n([\s\S]*?)\n---\n/\<close> has no flag, so \<^verbatim>\<open>^\<close> is the start of the text. After the
  opening \<^verbatim>\<open>---\n\<close> the lazy group takes the shortest text that is followed by \<^verbatim>\<open>\n---\n\<close>.
  \<open>find_closing\<close> returns the group and what follows the whole match.
\<close>

definition closing_delimiter :: jstring where
  "closing_delimiter = [LF] @ js ''---'' @ [LF]"

fun find_closing :: "jstring \<Rightarrow> (jstring \<times> jstring) option" where
  "find_closing [] = None"
| "find_closing (c # cs) =
     (if prefix closing_delimiter (c # cs) then Some ([], drop (length closing_delimiter) (c # cs))
      else (case find_closing cs of
              None \<Rightarrow> None
            | Some (frontmatterText, rest) \<Rightarrow> Some (c # frontmatterText, rest)))"

definition match_frontmatter :: "jstring \<Rightarrow> (jstring \<times> jstring) option" where
  "match_frontmatter content =
     (if prefix (js ''---'' @ [LF]) content then find_closing (drop 4 content) else None)"

record parsed =
  frontmatter :: js_object
  content :: jstring

definition parse_line :: "js_object \<Rightarrow> jstring \<Rightarrow> js_object" where
  "parse_line fm line =
     (let key = hd (split_on (of_char CHR '':'') line);
          valueParts = tl (split_on (of_char CHR '':'') line)
      in if key \<noteq> [] \<and> length valueParts > 0
         then obj_set fm (trim key) (trim (join (js '':'') valueParts))
         else fm)"

definition parseFrontmatter :: "jstring \<Rightarrow> parsed" where
  "parseFrontmatter text =
     (case match_frontmatter text of
        None \<Rightarrow> \<lparr>frontmatter = [], content = text\<rparr>
      | Some (frontmatterText, contentWithoutFrontmatter) \<Rightarrow>
          \<lparr>frontmatter = foldl parse_line [] (split_on LF frontmatterText),
           content = contentWithoutFrontmatter\<rparr>)"

section \<open>Sections and rule references\<close>

text \<open>
  Sections and rules both carry a title and the anchor derived from it. A section also keeps
  the number captured from its heading, its span in the body and its rules. The field
  \<^verbatim>\<open>file\<close> of a rule is \<open>rule_file\<close> here.
\<close>

record heading =
  title :: jstring
  anchor :: jstring

record rule = heading +
  rule_file :: jstring

record sect = heading +
  number :: jstring
  startIndex :: nat
  endIndex :: nat
  rules :: "rule list"

text \<open>
  \<^verbatim>\<open>/^### (\d+)\. (.+)$/gm\<close> at position \<open>p\<close>: the result is the two groups and the length of the
  match. \<^verbatim>\<open>\d+\<close> takes all the digits (with fewer, a digit and not the dot would follow),
  and \<^verbatim>\<open>.+\<close> takes the rest of the line, where \<^verbatim>\<open>$\<close> holds.
\<close>

definition match_section :: "jstring \<Rightarrow> nat \<Rightarrow> (jstring \<times> jstring \<times> nat) option" where
  "match_section s p =
     (let digits = takeWhile is_digit (drop 4 (drop p s));
          after_digits = dropWhile is_digit (drop 4 (drop p s));
          rest_of_line = takeWhile (\<lambda>c. \<not> is_line_terminator c) (drop 2 after_digits)
      in if at_line_start s p \<and> prefix (js ''### '') (drop p s) \<and> digits \<noteq> []
            \<and> prefix (js ''. '') after_digits \<and> rest_of_line \<noteq> []
         then Some (digits, rest_of_line, 4 + length digits + 2 + length rest_of_line)
         else None)"

lemma first_match_bounds:
  "first_match match_at s ps = Some (p, m) \<Longrightarrow> p \<in> set ps \<and> match_at s p = Some m"
  by (induction ps) (auto split: option.splits)

lemma match_section_length:
  assumes "match_section s p = Some (num, ttl, len)"
  shows "0 < len \<and> p + len \<le> length s"
proof -
  define s0 where "s0 = drop p s"
  define ds where "ds = takeWhile is_digit (drop 4 s0)"
  define ad where "ad = dropWhile is_digit (drop 4 s0)"
  define rl where "rl = takeWhile (\<lambda>c. \<not> is_line_terminator c) (drop 2 ad)"
  from assms have len: "len = 4 + length ds + 2 + length rl"
    and pre: "prefix (js ''### '') s0" "prefix (js ''. '') ad"
    by (auto simp: match_section_def Let_def s0_def ds_def ad_def rl_def split: if_splits)
  have "length rl \<le> length (drop 2 ad)"
    unfolding rl_def by (rule length_takeWhile_le)
  moreover from pre(2) have "2 \<le> length ad"
    by (auto simp: prefix_def)
  moreover have "length ds + length ad = length (drop 4 s0)"
    unfolding ds_def ad_def
    by (metis length_append takeWhile_dropWhile_id)
  moreover from pre(1) have "4 \<le> length s0"
    by (auto simp: prefix_def)
  moreover have "length s0 = length s - p"
    by (simp add: s0_def)
  ultimately show ?thesis
    using len by auto
qed

lemma regex_exec_section_advances:
  assumes "regex_exec match_section s i = Some (p, num, ttl, len)"
  shows "i \<le> p \<and> 0 < len \<and> p + len \<le> length s"
proof -
  from assms have "p \<in> set [i ..< Suc (length s)]" and "match_section s p = Some (num, ttl, len)"
    unfolding regex_exec_def by (auto dest: first_match_bounds)
  then show ?thesis
    using match_section_length [of s p num ttl len] by auto
qed

text \<open>
  The loop \<^verbatim>\<open>while ((sectionMatch = sectionRegex.exec(skillBody)) !== null)\<close>: each match
  closes the section before it, if there is one, at the match's start and opens a section that
  runs to the end of the body; \<^verbatim>\<open>lastIndex\<close> moves to the end of the match. The variable
  \<^verbatim>\<open>lastSectionEnd\<close> is written and never read.
\<close>

definition close_last :: "sect list \<Rightarrow> nat \<Rightarrow> sect list" where
  "close_last sections sectionStart =
     (if length sections > 0
      then sections[length sections - 1 :=
             (sections ! (length sections - 1))\<lparr>endIndex := sectionStart\<rparr>]
      else sections)"

function section_loop :: "jstring \<Rightarrow> nat \<Rightarrow> sect list \<Rightarrow> sect list" where
  "section_loop skillBody lastIndex sections =
     (case regex_exec match_section skillBody lastIndex of
        None \<Rightarrow> sections
      | Some (sectionStart, num, sectionTitle, len) \<Rightarrow>
          section_loop skillBody (sectionStart + len)
            (close_last sections sectionStart
             @ [\<lparr>title = sectionTitle, anchor = createAnchor sectionTitle, number = num,
                 startIndex = sectionStart, endIndex = length skillBody, rules = []\<rparr>]))"
  by pat_completeness auto
termination
proof (relation "measure (\<lambda>(skillBody, lastIndex, sections). Suc (length skillBody) - lastIndex)")
  show "wf (measure (\<lambda>(skillBody, lastIndex, sections). Suc (length skillBody) - lastIndex))"
    by simp
next
  fix skillBody :: jstring and lastIndex :: nat and sections :: "sect list"
    and x2 sectionStart y num ya sectionTitle len
  assume "regex_exec match_section skillBody lastIndex = Some x2"
    and "(sectionStart, y) = x2" and "(num, ya) = y" and "(sectionTitle, len) = ya"
  then have "regex_exec match_section skillBody lastIndex = Some (sectionStart, num, sectionTitle, len)"
    by simp
  from regex_exec_section_advances [OF this]
  show "((skillBody, sectionStart + len,
          close_last sections sectionStart
          @ [\<lparr>title = sectionTitle, anchor = createAnchor sectionTitle, number = num,
              startIndex = sectionStart, endIndex = length skillBody, rules = []\<rparr>]),
         skillBody, lastIndex, sections)
        \<in> measure (\<lambda>(skillBody, lastIndex, sections). Suc (length skillBody) - lastIndex)"
    by auto
qed

declare section_loop.simps [simp del]

text \<open>
  \<^verbatim>\<open>/\[([^\]]+)\]\(rules\/([^)]+\.md)\)/g\<close> at position \<open>p\<close>: the title runs to the first
  \<^verbatim>\<open>]\<close>, which \<^verbatim>\<open>(rules/\<close> must follow; the file runs to the first \<^verbatim>\<open>)\<close>, must end in
  \<^verbatim>\<open>.md\<close> and have a character before it. The result is the two groups and the length of the
  match.
\<close>

definition match_rule :: "jstring \<Rightarrow> nat \<Rightarrow> (jstring \<times> jstring \<times> nat) option" where
  "match_rule s p =
     (let link_text = takeWhile (\<lambda>c. c \<noteq> of_char CHR '']'') (drop 1 (drop p s));
          after_text = dropWhile (\<lambda>c. c \<noteq> of_char CHR '']'') (drop 1 (drop p s));
          target = takeWhile (\<lambda>c. c \<noteq> of_char CHR '')'') (drop 8 after_text);
          after_target = dropWhile (\<lambda>c. c \<noteq> of_char CHR '')'') (drop 8 after_text)
      in if prefix (js ''['') (drop p s) \<and> link_text \<noteq> [] \<and> prefix (js ''](rules/'') after_text
            \<and> 3 < length target \<and> suffix (js ''.md'') target \<and> after_target \<noteq> []
         then Some (link_text, target, 1 + length link_text + 8 + length target + 1)
         else None)"

lemma match_rule_length:
  assumes "match_rule s p = Some (t, f, len)"
  shows "0 < len \<and> p + len \<le> length s"
proof -
  define s0 where "s0 = drop p s"
  define lt where "lt = takeWhile (\<lambda>c. c \<noteq> of_char CHR '']'') (drop 1 s0)"
  define at where "at = dropWhile (\<lambda>c. c \<noteq> of_char CHR '']'') (drop 1 s0)"
  define tg where "tg = takeWhile (\<lambda>c. c \<noteq> of_char CHR '')'') (drop 8 at)"
  define ag where "ag = dropWhile (\<lambda>c. c \<noteq> of_char CHR '')'') (drop 8 at)"
  from assms have len: "len = 1 + length lt + 8 + length tg + 1"
    and pre: "prefix (js ''['') s0" "prefix (js ''](rules/'') at" "ag \<noteq> []"
    by (auto simp: match_rule_def Let_def s0_def lt_def at_def tg_def ag_def split: if_splits)
  have "length tg + length ag = length (drop 8 at)"
    unfolding tg_def ag_def
    by (metis length_append takeWhile_dropWhile_id)
  moreover from pre(3) have "1 \<le> length ag"
    by (cases ag) auto
  moreover from pre(2) have "8 \<le> length at"
    by (auto simp: prefix_def)
  moreover have "length lt + length at = length (drop 1 s0)"
    unfolding lt_def at_def
    by (metis length_append takeWhile_dropWhile_id)
  moreover from pre(1) have "1 \<le> length s0"
    by (auto simp: prefix_def)
  moreover have "length s0 = length s - p"
    by (simp add: s0_def)
  ultimately show ?thesis
    using len by auto
qed

lemma regex_exec_rule_advances:
  assumes "regex_exec match_rule s i = Some (p, t, f, len)"
  shows "i \<le> p \<and> 0 < len \<and> p + len \<le> length s"
proof -
  from assms have "p \<in> set [i ..< Suc (length s)]" and "match_rule s p = Some (t, f, len)"
    unfolding regex_exec_def by (auto dest: first_match_bounds)
  then show ?thesis
    using match_rule_length [of s p t f len] by auto
qed

text \<open>
  \<^verbatim>\<open>extractRuleReferences\<close>: the loop pushes \<^verbatim>\<open>{ title, file }\<close> for every match, here a pair.
\<close>

function rule_loop :: "jstring \<Rightarrow> nat \<Rightarrow> (jstring \<times> jstring) list \<Rightarrow> (jstring \<times> jstring) list" where
  "rule_loop skillContent lastIndex refs =
     (case regex_exec match_rule skillContent lastIndex of
        None \<Rightarrow> refs
      | Some (start, link_title, link_file, len) \<Rightarrow>
          rule_loop skillContent (start + len) (refs @ [(link_title, link_file)]))"
  by pat_completeness auto
termination
proof (relation "measure (\<lambda>(skillContent, lastIndex, refs). Suc (length skillContent) - lastIndex)")
  show "wf (measure (\<lambda>(skillContent, lastIndex, refs). Suc (length skillContent) - lastIndex))"
    by simp
next
  fix skillContent :: jstring and lastIndex :: nat and refs :: "(jstring \<times> jstring) list"
    and x2 start y link_title ya link_file len
  assume "regex_exec match_rule skillContent lastIndex = Some x2"
    and "(start, y) = x2" and "(link_title, ya) = y" and "(link_file, len) = ya"
  then have "regex_exec match_rule skillContent lastIndex = Some (start, link_title, link_file, len)"
    by simp
  from regex_exec_rule_advances [OF this]
  show "((skillContent, start + len, refs @ [(link_title, link_file)]),
         skillContent, lastIndex, refs)
        \<in> measure (\<lambda>(skillContent, lastIndex, refs). Suc (length skillContent) - lastIndex)"
    by auto
qed

declare rule_loop.simps [simp del]

definition extractRuleReferences :: "jstring \<Rightarrow> (jstring \<times> jstring) list" where
  "extractRuleReferences skillContent = rule_loop skillContent 0 []"

text \<open>\<^verbatim>\<open>s.slice(a, b)\<close> for indices within the text.\<close>

definition slice :: "jstring \<Rightarrow> nat \<Rightarrow> nat \<Rightarrow> jstring" where
  "slice s a b = take (b - a) (drop a s)"

definition assign_rules :: "jstring \<Rightarrow> sect \<Rightarrow> sect" where
  "assign_rules skillBody sec =
     sec\<lparr>rules :=
       map (\<lambda>(link_title, link_file).
              \<lparr>title = link_title, anchor = createAnchor link_title, rule_file = link_file\<rparr>)
           (extractRuleReferences (slice skillBody (startIndex sec) (endIndex sec)))\<rparr>"

text \<open>
  The sections of a body, as \<^verbatim>\<open>buildAgentsMd\<close> computes them before it writes anything: the
  loop starts with no sections and \<^verbatim>\<open>lastIndex\<close> 0, and then every section gets its rules.
\<close>

definition splitSections :: "jstring \<Rightarrow> sect list" where
  "splitSections skillBody = section_loop skillBody 0 []"

definition extractSections :: "jstring \<Rightarrow> sect list" where
  "extractSections skillBody = map (assign_rules skillBody) (splitSections skillBody)"

section \<open>Console\<close>

text \<open>
  \<^verbatim>\<open>log(message, color)\<close> prints \<^verbatim>\<open>colors[color]\<close>, the message and \<^verbatim>\<open>colors.reset\<close>. A colour
  that the table lacks (the scripts ask for \<^verbatim>\<open>red\<close>, which neither table has) reads as
  \<^verbatim>\<open>undefined\<close> and is printed as that word. The console is the list of lines printed.
\<close>

definition ESC :: unit16 where
  "ESC = 0x1B"

definition DQ :: unit16 where
  "DQ = 0x22"

definition build_colors :: "(jstring \<times> jstring) list" where
  "build_colors =
     [(js ''reset'', ESC # js ''[0m''), (js ''green'', ESC # js ''[32m''), (js ''blue'', ESC # js ''[34m''),
      (js ''yellow'', ESC # js ''[33m''), (js ''cyan'', ESC # js ''[36m'')]"

definition watch_colors :: "(jstring \<times> jstring) list" where
  "watch_colors = build_colors @ [(js ''magenta'', ESC # js ''[35m'')]"

definition log :: "(jstring \<times> jstring) list \<Rightarrow> jstring \<Rightarrow> jstring \<Rightarrow> jstring" where
  "log colors message color =
     (case map_of colors color of None \<Rightarrow> js ''undefined'' | Some code \<Rightarrow> code)
       @ message
       @ (case map_of colors (js ''reset'') of None \<Rightarrow> js ''undefined'' | Some code \<Rightarrow> code)"

text \<open>The symbols of the messages and badges, as code units.\<close>

definition sym_warning :: jstring where
  "sym_warning = [0x26A0, 0xFE0F]"

definition sym_rocket :: jstring where
  "sym_rocket = [0xD83D, 0xDE80]"

definition sym_line :: jstring where
  "sym_line = [0x2501]"

definition sym_cross :: jstring where
  "sym_cross = [0x274C]"

definition sym_check :: jstring where
  "sym_check = [0x2713]"

definition sym_bullet :: jstring where
  "sym_bullet = [0x2022]"

definition sym_red :: jstring where
  "sym_red = [0xD83D, 0xDD34]"

definition sym_orange :: jstring where
  "sym_orange = [0xD83D, 0xDFE0]"

definition sym_yellow :: jstring where
  "sym_yellow = [0xD83D, 0xDFE1]"

definition sym_green :: jstring where
  "sym_green = [0xD83D, 0xDFE2]"

definition sym_done :: jstring where
  "sym_done = [0x2705]"

definition sym_page :: jstring where
  "sym_page = [0xD83D, 0xDCC4]"

definition sym_chart :: jstring where
  "sym_chart = [0xD83D, 0xDCCA]"

definition sym_package :: jstring where
  "sym_package = [0xD83D, 0xDCE6]"

definition sym_cycle :: jstring where
  "sym_cycle = [0xD83D, 0xDD04]"

definition sym_eyes :: jstring where
  "sym_eyes = [0xD83D, 0xDC40]"

definition sym_folder :: jstring where
  "sym_folder = [0xD83D, 0xDCC1]"

definition sym_memo :: jstring where
  "sym_memo = [0xD83D, 0xDCDD]"

definition separator_line :: jstring where
  "separator_line = concat (replicate 50 sym_line)"

section \<open>Files\<close>

text \<open>
  The build reads \<^verbatim>\<open>SKILL.md\<close> and the files of the rules directory and writes \<^verbatim>\<open>AGENTS.md\<close>.
  A path is absent, a file with its text, or a directory; the text of a file is the string
  that \<^verbatim>\<open>readFileSync(path, 'utf-8')\<close> returns for it, the bytes decoded; \<^verbatim>\<open>existsSync\<close> holds for the last
  two and \<^verbatim>\<open>readFileSync\<close> throws on a directory. The rules directory is a function from the
  path below it, as written in the link, to what \<^verbatim>\<open>path.join(RULES_DIR, rulePath)\<close> names.
  Writing the output is taken to succeed.
\<close>

datatype node = File jstring | Directory

datatype io_error = EISDIR

definition message :: "io_error \<Rightarrow> jstring" where
  "message e = js ''EISDIR: illegal operation on a directory, read''"

record files =
  skill_file :: "node option"
  rule_files :: "jstring \<Rightarrow> node option"
  output_path :: jstring

record ruleData = parsed +
  path :: jstring

text \<open>
  \<^verbatim>\<open>readRuleFile\<close> returns \<^verbatim>\<open>null\<close> (\<open>None\<close>) after a warning when the file is absent. The
  console is passed through; a thrown error comes with the console as it stood.
\<close>

definition warning_line :: "jstring \<Rightarrow> jstring" where
  "warning_line rulePath =
     log build_colors (sym_warning @ js ''  Warning: Rule file not found: '' @ rulePath) (js ''yellow'')"

definition readRuleFile ::
  "(jstring \<Rightarrow> node option) \<Rightarrow> jstring \<Rightarrow> jstring list
    \<Rightarrow> (io_error \<times> jstring list) + (ruleData option \<times> jstring list)" where
  "readRuleFile rule_dir rulePath console =
     (case rule_dir rulePath of
        None \<Rightarrow> Inr (None, console @ [warning_line rulePath])
      | Some Directory \<Rightarrow> Inl (EISDIR, console)
      | Some (File text) \<Rightarrow>
          Inr (Some \<lparr>frontmatter = frontmatter (parseFrontmatter text),
                     content = trim (content (parseFrontmatter text)),
                     path = rulePath\<rparr>, console))"

section \<open>Table of contents\<close>

text \<open>\<^verbatim>\<open>xs.forEach((x, index) => ...)\<close> on a state that the callback updates.\<close>

fun forEach :: "('a \<Rightarrow> nat \<Rightarrow> 's \<Rightarrow> 's) \<Rightarrow> 'a list \<Rightarrow> nat \<Rightarrow> 's \<Rightarrow> 's" where
  "forEach f [] index st = st"
| "forEach f (x # xs) index st = forEach f xs (Suc index) (f x index st)"

definition toc_rule_entry :: "nat \<Rightarrow> rule \<Rightarrow> nat \<Rightarrow> jstring \<Rightarrow> jstring" where
  "toc_rule_entry sectionNum r ruleIndex toc =
     toc @ js ''   '' @ string_of_nat sectionNum @ js ''.'' @ string_of_nat (ruleIndex + 1)
       @ js ''. ['' @ title r @ js ''](#'' @ anchor r @ js '')'' @ [LF]"

definition toc_section_entry :: "sect \<Rightarrow> nat \<Rightarrow> jstring \<Rightarrow> jstring" where
  "toc_section_entry sec index toc =
     (let sectionNum = index + 1
      in forEach (toc_rule_entry sectionNum) (rules sec) 0
           (toc @ string_of_nat sectionNum @ js ''. ['' @ title sec @ js ''](#'' @ anchor sec @ js '')'' @ [LF])
         @ [LF])"

definition generateTOC :: "sect list \<Rightarrow> jstring" where
  "generateTOC sections =
     forEach toc_section_entry sections 0 (js ''## Table of Contents'' @ [LF, LF])"

section \<open>Document composer\<close>

text \<open>
  What the rendering loop updates: the text of the variable \<^verbatim>\<open>output\<close>, the console and
  the count of rules processed. A callback that throws ends the loop; the error comes with the console.
\<close>

record build_state =
  output_text :: jstring
  console :: "jstring list"
  processedRules :: nat

fun forEachE :: "('a \<Rightarrow> nat \<Rightarrow> 's \<Rightarrow> 'e + 's) \<Rightarrow> 'a list \<Rightarrow> nat \<Rightarrow> 's \<Rightarrow> 'e + 's" where
  "forEachE f [] index st = Inr st"
| "forEachE f (x # xs) index st =
     (case f x index st of
        Inl e \<Rightarrow> Inl e
      | Inr st' \<Rightarrow> forEachE f xs (Suc index) st')"

definition rule_heading :: "sect \<Rightarrow> rule \<Rightarrow> nat \<Rightarrow> jstring" where
  "rule_heading sec r ruleIndex =
     js ''### '' @ number sec @ js ''.'' @ string_of_nat (ruleIndex + 1) @ js ''. '' @ title r @ [LF, LF]"

definition anchor_marker :: "jstring \<Rightarrow> jstring" where
  "anchor_marker a = js ''<a name='' @ [DQ] @ a @ [DQ] @ js ''></a>'' @ [LF, LF]"

definition not_found_notice :: "rule \<Rightarrow> jstring" where
  "not_found_notice r = js ''_Rule file not found: '' @ rule_file r @ js ''_'' @ [LF, LF]"

definition impact_badge :: "js_object \<Rightarrow> jstring" where
  "impact_badge fm =
     (if truthy (obj_get fm (js ''impact''))
      then js ''**Impact:** ''
        @ (if obj_get fm (js ''impact'') = Some (js ''CRITICAL'') then sym_red @ js '' CRITICAL''
           else if obj_get fm (js ''impact'') = Some (js ''HIGH'') then sym_orange @ js '' HIGH''
           else if obj_get fm (js ''impact'') = Some (js ''MEDIUM'') then sym_yellow @ js '' MEDIUM''
           else sym_green @ js '' LOW'')
        @ [LF, LF]
      else [])"

definition description_quote :: "js_object \<Rightarrow> jstring" where
  "description_quote fm =
     (if truthy (obj_get fm (js ''description''))
      then js ''> '' @ or_else (obj_get fm (js ''description'')) [] @ [LF, LF]
      else [])"

definition rule_separator :: jstring where
  "rule_separator = js ''---'' @ [LF, LF]"

definition processing_line :: "rule \<Rightarrow> jstring" where
  "processing_line r =
     log build_colors (js ''  '' @ sym_bullet @ js '' Processing: '' @ rule_file r) (js ''blue'')"

text \<open>The callback of \<^verbatim>\<open>section.rules.forEach\<close>; the missing rule returns early.\<close>

definition render_rule ::
  "(jstring \<Rightarrow> node option) \<Rightarrow> sect \<Rightarrow> rule \<Rightarrow> nat \<Rightarrow> build_state
    \<Rightarrow> (io_error \<times> jstring list) + build_state" where
  "render_rule rule_dir sec r ruleIndex st =
     (case readRuleFile rule_dir (rule_file r) (console st @ [processing_line r]) of
        Inl e \<Rightarrow> Inl e
      | Inr (None, con) \<Rightarrow>
          Inr (st\<lparr>output_text := output_text st @ rule_heading sec r ruleIndex @ not_found_notice r,
                  console := con\<rparr>)
      | Inr (Some data, con) \<Rightarrow>
          Inr (st\<lparr>output_text := output_text st @ rule_heading sec r ruleIndex @ anchor_marker (anchor r)
                      @ impact_badge (frontmatter data) @ description_quote (frontmatter data)
                      @ content data @ [LF, LF] @ rule_separator,
                  console := con,
                  processedRules := processedRules st + 1\<rparr>))"

definition section_heading :: "sect \<Rightarrow> jstring" where
  "section_heading sec = js ''## '' @ number sec @ js ''. '' @ title sec @ [LF, LF]"

text \<open>The callback of \<^verbatim>\<open>sections.forEach\<close>; it does not use its index.\<close>

definition render_section ::
  "(jstring \<Rightarrow> node option) \<Rightarrow> sect \<Rightarrow> nat \<Rightarrow> build_state
    \<Rightarrow> (io_error \<times> jstring list) + build_state" where
  "render_section rule_dir sec sectionIndex st =
     forEachE (render_rule rule_dir sec) (rules sec) 0
       (st\<lparr>output_text := output_text st @ section_heading sec @ anchor_marker (anchor sec)\<rparr>)"

text \<open>The frontmatter block, the title and the description at the top of the output.\<close>

definition frontmatter_block :: "js_object \<Rightarrow> jstring" where
  "frontmatter_block skillFrontmatter =
     forEach (\<lambda>(key, val) index out. out @ key @ js '': '' @ val @ [LF])
       (entries skillFrontmatter) 0 (js ''---'' @ [LF])
     @ js ''---'' @ [LF, LF]"

definition title_block :: "js_object \<Rightarrow> jstring" where
  "title_block skillFrontmatter =
     js ''# '' @ or_else (obj_get skillFrontmatter (js ''name'')) (js ''Composio Agent Skills'') @ [LF, LF]
     @ or_else (obj_get skillFrontmatter (js ''description'')) [] @ [LF, LF]"

text \<open>
  \<^verbatim>\<open>/## When to Apply([\s\S]*?)(?=##|$)/\<close> and the same for \<^verbatim>\<open>Quick Start\<close>: after the
  heading, wherever it first stands, the lazy group stops before the next \<^verbatim>\<open>##\<close> or at the
  end of the text. \<^verbatim>\<open>/## References([\s\S]*?)$/\<close> takes everything to the end.
\<close>

fun until_hashes :: "jstring \<Rightarrow> jstring" where
  "until_hashes [] = []"
| "until_hashes (c # cs) = (if prefix (js ''##'') (c # cs) then [] else c # until_hashes cs)"

definition match_block :: "jstring \<Rightarrow> jstring \<Rightarrow> nat \<Rightarrow> jstring option" where
  "match_block label s p =
     (if prefix label (drop p s) then Some (until_hashes (drop (p + length label) s)) else None)"

definition match_to_end :: "jstring \<Rightarrow> jstring \<Rightarrow> nat \<Rightarrow> jstring option" where
  "match_to_end label s p =
     (if prefix label (drop p s) then Some (drop (p + length label) s) else None)"

definition when_to_apply_block :: "jstring \<Rightarrow> jstring" where
  "when_to_apply_block skillBody =
     (case regex_exec (match_block (js ''## When to Apply'')) skillBody 0 of
        None \<Rightarrow> []
      | Some (index, captured) \<Rightarrow> js ''## When to Apply'' @ [LF] @ trim captured @ [LF, LF])"

definition footer_blocks :: "jstring \<Rightarrow> jstring" where
  "footer_blocks skillBody =
     (case regex_exec (match_block (js ''## Quick Start'')) skillBody 0 of
        None \<Rightarrow> []
      | Some (index, captured) \<Rightarrow> js ''## Quick Start'' @ [LF, LF] @ trim captured @ [LF, LF])
     @ (case regex_exec (match_to_end (js ''## References'')) skillBody 0 of
          None \<Rightarrow> []
        | Some (index, captured) \<Rightarrow> js ''## References'' @ [LF, LF] @ trim captured @ [LF, LF])"

definition timestamp_footer :: "jstring \<Rightarrow> jstring" where
  "timestamp_footer now =
     [LF] @ js ''---'' @ [LF, LF]
     @ js ''_This file was automatically generated from individual rule files on '' @ now @ js ''_'' @ [LF]
     @ js ''_To update, run: `npm run build:agents`_'' @ [LF]"

text \<open>
  \<^verbatim>\<open>fs.statSync(OUTPUT_FILE).size\<close> is the number of bytes of the text as \<^verbatim>\<open>writeFileSync\<close> wrote
  it, in UTF-8: one to four bytes for a code point, and three for a surrogate that has no
  partner, which is written as U+FFFD.
  \<^verbatim>\<open>(size / 1024).toFixed(2)\<close> for a size in bytes: the quotient is exact, and \<^verbatim>\<open>toFixed\<close>
  rounds it to hundredths, a tie upwards.
\<close>

definition utf8_size :: "int \<Rightarrow> nat" where
  "utf8_size cp = (if cp < 0x80 then 1 else if cp < 0x800 then 2 else if cp < 0x10000 then 3 else 4)"

definition byte_length :: "jstring \<Rightarrow> nat" where
  "byte_length s = sum_list (map utf8_size (code_points s))"

definition kilobytes :: "nat \<Rightarrow> jstring" where
  "kilobytes bytes =
     (let n = (200 * bytes + 1024) div 2048
      in string_of_nat (n div 100) @ js ''.'' @ string_of_nat (n mod 100 div 10)
           @ string_of_nat (n mod 10))"

text \<open>
  How \<^verbatim>\<open>buildAgentsMd\<close> ends: \<^verbatim>\<open>process.exit\<close> with a code, a thrown error, or a return after
  writing the text to the output file.
\<close>

datatype completion = Exit nat | Throw io_error | Written jstring

text \<open>The lines printed before the rules are processed, and after the output is written.\<close>

definition started_console :: "jstring list" where
  "started_console =
     [log build_colors ([LF] @ sym_rocket @ js '' Building AGENTS.md...'') (js ''cyan''),
      log build_colors separator_line (js ''cyan'')]"

definition found_console :: "sect list \<Rightarrow> jstring list" where
  "found_console sections =
     started_console
       @ [log build_colors (sym_check @ js '' Read SKILL.md'') (js ''green''),
          log build_colors (sym_check @ js '' Found '' @ string_of_nat (length sections)
            @ js '' sections'') (js ''green'')]
       @ map (\<lambda>sec. log build_colors (js ''  '' @ sym_bullet @ js '' '' @ title sec @ js '': ''
                @ string_of_nat (length (rules sec)) @ js '' rules'') (js ''blue'')) sections
       @ [log build_colors (sym_check @ js '' Found ''
            @ string_of_nat (sum_list (map (\<lambda>sec. length (rules sec)) sections))
            @ js '' total rules'') (js ''green''),
          log build_colors (sym_check @ js '' Generating table of contents'') (js ''green''),
          log build_colors (sym_check @ js '' Processing rules...'') (js ''green'')]"

definition finished_console :: "jstring \<Rightarrow> nat \<Rightarrow> nat \<Rightarrow> jstring \<Rightarrow> jstring list" where
  "finished_console target sectionCount ruleCount out =
     [log build_colors (sym_check @ js '' Processed '' @ string_of_nat ruleCount @ js '' rules'') (js ''green''),
      log build_colors separator_line (js ''cyan''),
      log build_colors (sym_done @ js '' Successfully generated AGENTS.md'') (js ''green''),
      log build_colors (sym_page @ js '' Output: '' @ target) (js ''blue''),
      log build_colors (sym_chart @ js '' Stats: '' @ string_of_nat sectionCount @ js '' sections, ''
        @ string_of_nat ruleCount @ js '' rules'') (js ''blue''),
      log build_colors (sym_package @ js '' Size: '' @ kilobytes (byte_length out) @ js '' KB'') (js ''blue''),
      log build_colors separator_line (js ''cyan'')]"

definition buildAgentsMd :: "files \<Rightarrow> jstring \<Rightarrow> jstring list \<times> completion" where
  "buildAgentsMd fs now =
     (case skill_file fs of
        None \<Rightarrow>
          (started_console
             @ [log build_colors (sym_cross @ js '' Error: SKILL.md not found'') (js ''red'')],
           Exit 1)
      | Some Directory \<Rightarrow> (started_console, Throw EISDIR)
      | Some (File skillContent) \<Rightarrow>
          (let skillFrontmatter = frontmatter (parseFrontmatter skillContent);
               skillBody = content (parseFrontmatter skillContent);
               sections = extractSections skillBody;
               top = frontmatter_block skillFrontmatter @ title_block skillFrontmatter
                 @ when_to_apply_block skillBody @ generateTOC sections @ js ''---'' @ [LF, LF]
           in case forEachE (render_section (rule_files fs)) sections 0
                     \<lparr>output_text = top, console = found_console sections, processedRules = 0\<rparr> of
                Inl (e, con) \<Rightarrow> (con, Throw e)
              | Inr st \<Rightarrow>
                  (let out = output_text st @ footer_blocks skillBody @ timestamp_footer now
                   in (console st
                         @ finished_console (output_path fs) (length sections) (processedRules st) out,
                       Written out))))"

text \<open>
  The script's last lines: run the build, and on a thrown error print it and exit with 1. A
  process that returns exits with 0.
\<close>

record build_run =
  stdout :: "jstring list"
  stderr :: "jstring list"
  written :: "jstring option"
  exit_code :: nat

definition run_build :: "files \<Rightarrow> jstring \<Rightarrow> build_run" where
  "run_build fs now =
     (case buildAgentsMd fs now of
        (con, Exit code) \<Rightarrow> \<lparr>stdout = con, stderr = [], written = None, exit_code = code\<rparr>
      | (con, Throw e) \<Rightarrow>
          \<lparr>stdout = con @ [log build_colors ([LF] @ sym_cross @ js '' Error: '' @ message e) (js ''red'')],
           stderr = [js ''Error: '' @ message e], written = None, exit_code = 1\<rparr>
      | (con, Written out) \<Rightarrow> \<lparr>stdout = con, stderr = [], written = Some out, exit_code = 0\<rparr>)"

section \<open>Watch driver\<close>

text \<open>
  \<^verbatim>\<open>scripts/watch-agents.cjs\<close> runs the build as a child process. The runtime is modelled as far
  as the script depends on it. \<^verbatim>\<open>execSync(command)\<close> throws when the child exits with a
  status other than 0. For \<^verbatim>\<open>node p\<close>, Node looks for the main script at \<open>p\<close> and then at
  \<open>p\<close> with \<^verbatim>\<open>.js\<close>, \<^verbatim>\<open>.json\<close> or \<^verbatim>\<open>.node\<close> appended, and for a directory at its index
  files (a \<^verbatim>\<open>package.json\<close> in such a directory, which can name another main file, is not
  modelled: the repository has no directory at the path of the build command); when none is
  a file the child runs nothing and exits with status 1. The paths are
  relative to the working directory, the root of the repository, whose files are \<open>present\<close>;
  \<open>script_status\<close> is the status with which a script that was found exits. Both watched paths
  are taken to exist, so that \<^verbatim>\<open>fs.watch\<close> does not throw.
\<close>

record runtime =
  present :: "jstring list"
  script_status :: "jstring \<Rightarrow> nat"

definition node_candidates :: "jstring \<Rightarrow> jstring list" where
  "node_candidates p =
     [p, p @ js ''.js'', p @ js ''.json'', p @ js ''.node'',
      p @ js ''/index.js'', p @ js ''/index.json'', p @ js ''/index.node'']"

definition node_resolve :: "jstring list \<Rightarrow> jstring \<Rightarrow> jstring option" where
  "node_resolve fs p = List.find (\<lambda>c. c \<in> set fs) (node_candidates p)"

text \<open>The script the child ran, if any, and whether \<^verbatim>\<open>execSync\<close> returned rather than threw.\<close>

definition execSync :: "runtime \<Rightarrow> jstring \<Rightarrow> jstring option \<times> bool" where
  "execSync rt command =
     (if prefix (js ''node '') command
      then (case node_resolve (present rt) (drop 5 command) of
              None \<Rightarrow> (None, False)
            | Some script \<Rightarrow> (Some script, script_status rt script = 0))
      else (None, False))"

record watch_state =
  terminal :: "jstring list"
  executed :: "jstring list"
  scripts_run :: "jstring list"

definition build_command :: jstring where
  "build_command = js ''node scripts/build-agents.js''"

definition rebuild :: "runtime \<Rightarrow> jstring \<Rightarrow> watch_state \<Rightarrow> watch_state" where
  "rebuild rt timestamp st =
     (let announced = terminal st
            @ [log watch_colors ([LF] @ js ''['' @ timestamp @ js ''] '' @ sym_cycle
                 @ js '' Rebuilding AGENTS.md...'') (js ''yellow'')];
          child = execSync rt build_command
      in \<lparr>terminal = (if snd child then announced
                      else announced @ [log watch_colors (sym_cross @ js '' Build failed'') (js ''red'')]),
          executed = executed st @ [build_command],
          scripts_run = scripts_run st @ (case fst child of None \<Rightarrow> [] | Some script \<Rightarrow> [script])\<rparr>)"

text \<open>
  A notification of one of the two watchers, with the arguments of the callback and the local
  time at which it runs. \<^verbatim>\<open>filename\<close> is \<^verbatim>\<open>null\<close> where the platform gives none.
\<close>

datatype watcher = SkillWatcher | RulesWatcher

record fs_event =
  source :: watcher
  eventType :: jstring
  filename :: "jstring option"
  local_time :: jstring

definition on_event :: "runtime \<Rightarrow> watch_state \<Rightarrow> fs_event \<Rightarrow> watch_state" where
  "on_event rt st ev =
     (case source ev of
        SkillWatcher \<Rightarrow>
          (if eventType ev = js ''change''
           then rebuild rt (local_time ev)
                  (st\<lparr>terminal := terminal st
                     @ [log watch_colors ([LF] @ sym_memo @ js '' SKILL.md changed'') (js ''yellow'')]\<rparr>)
           else st)
      | RulesWatcher \<Rightarrow>
          (case filename ev of
             None \<Rightarrow> st
           | Some name \<Rightarrow>
               (if name \<noteq> [] \<and> suffix (js ''.md'') name
                then rebuild rt (local_time ev)
                       (st\<lparr>terminal := terminal st
                          @ [log watch_colors ([LF] @ sym_memo @ js '' Rule changed: '' @ name)
                               (js ''yellow'')]\<rparr>)
                else st)))"

definition watch_start :: "runtime \<Rightarrow> jstring \<Rightarrow> jstring \<Rightarrow> jstring \<Rightarrow> watch_state" where
  "watch_start rt skill_path rules_path timestamp =
     (let st = rebuild rt timestamp
                 \<lparr>terminal =
                    [log watch_colors ([LF] @ sym_eyes @ js '' Watching for changes...'') (js ''cyan''),
                     log watch_colors separator_line (js ''cyan''),
                     log watch_colors (sym_folder @ js '' SKILL.md: '' @ skill_path) (js ''blue''),
                     log watch_colors (sym_folder @ js '' Rules: '' @ rules_path) (js ''blue''),
                     log watch_colors separator_line (js ''cyan''),
                     log watch_colors (js ''Press Ctrl+C to stop'' @ [LF]) (js ''magenta'')],
                  executed = [], scripts_run = []\<rparr>
      in st\<lparr>terminal := terminal st
           @ [log watch_colors (sym_done @ js '' Watching started successfully'' @ [LF]) (js ''green'')]\<rparr>)"

text \<open>The driver after start-up and a sequence of notifications, each handled to its end.\<close>

definition watch :: "runtime \<Rightarrow> jstring \<Rightarrow> jstring \<Rightarrow> jstring \<Rightarrow> fs_event list \<Rightarrow> watch_state" where
  "watch rt skill_path rules_path timestamp events =
     foldl (on_event rt) (watch_start rt skill_path rules_path timestamp) events"

text \<open>
  The qualifying events in the specification's words: a change event on the source document,
  or an event in the rules directory whose file name ends in \<^verbatim>\<open>.md\<close>.
\<close>

definition qualifies :: "fs_event \<Rightarrow> bool" where
  "qualifies ev =
     (case source ev of
        SkillWatcher \<Rightarrow> eventType ev = js ''change''
      | RulesWatcher \<Rightarrow> (case filename ev of None \<Rightarrow> False | Some name \<Rightarrow> suffix (js ''.md'') name))"

text \<open>The scripts directory of the repository, relative to its root.\<close>

definition repository_scripts :: "jstring list" where
  "repository_scripts = [js ''scripts/build-agents.cjs'', js ''scripts/watch-agents.cjs'']"

section \<open>Specification-level notions\<close>

text \<open>
  A later line \<^verbatim>\<open>---\<close> that is followed by a newline: among the lines of the text, cut at the
  line feeds, one after the first and before the last is \<^verbatim>\<open>---\<close>.
\<close>

definition has_closing_line :: "jstring \<Rightarrow> bool" where
  "has_closing_line text = (js ''---'' \<in> set (butlast (tl (split_on LF text))))"

text \<open>
  The line a failed rebuild prints, and how many times it stands on the terminal.
\<close>

definition failed_line :: jstring where
  "failed_line = log watch_colors (sym_cross @ js '' Build failed'') (js ''red'')"

definition failures :: "watch_state \<Rightarrow> nat" where
  "failures st = length (filter (\<lambda>l. l = failed_line) (terminal st))"

text \<open>
  A matching line in the specification's words: at the start of a line stand \<^verbatim>\<open>###\<close>, a
  space, one or more digits, a dot, a space and one or more characters up to the end of the
  line. \<open>heading_at body p num ttl\<close> says that such a line starts at position \<open>p\<close>, with the
  digits \<open>num\<close> and the rest of the line \<open>ttl\<close>.
\<close>

definition heading_at :: "jstring \<Rightarrow> nat \<Rightarrow> jstring \<Rightarrow> jstring \<Rightarrow> bool" where
  "heading_at body p num ttl =
     (at_line_start body p
      \<and> num \<noteq> [] \<and> list_all is_digit num
      \<and> ttl \<noteq> [] \<and> list_all (\<lambda>c. \<not> is_line_terminator c) ttl
      \<and> (\<exists>rest. drop p body = js ''### '' @ num @ js ''. '' @ ttl @ rest
             \<and> (rest = [] \<or> is_line_terminator (hd rest))))"

text \<open>
  The positions at which the heading pattern matches, in ascending order: the starts of the
  matching lines.
\<close>

definition heading_starts :: "jstring \<Rightarrow> nat list" where
  "heading_starts body = filter (\<lambda>p. match_section body p \<noteq> None) [0 ..< Suc (length body)]"

text \<open>The text of each section's span.\<close>

definition spans :: "jstring \<Rightarrow> sect list \<Rightarrow> jstring list" where
  "spans body secs = map (\<lambda>s. slice body (startIndex s) (endIndex s)) secs"

text \<open>
  The sections in closed form, for the proofs: the section opened by the match at \<open>p\<close> and
  closed at \<open>e\<close>, and the sections of a list of match positions, each closed where the next
  starts and the last at the end of the body.
\<close>

definition open_section :: "jstring \<Rightarrow> nat \<Rightarrow> nat \<Rightarrow> sect" where
  "open_section body p e =
     (case match_section body p of
        None \<Rightarrow> \<lparr>title = [], anchor = [], number = [], startIndex = p, endIndex = e, rules = []\<rparr>
      | Some (num, ttl, len) \<Rightarrow>
          \<lparr>title = ttl, anchor = createAnchor ttl, number = num, startIndex = p, endIndex = e,
           rules = []\<rparr>)"

fun sections_at :: "jstring \<Rightarrow> nat list \<Rightarrow> sect list" where
  "sections_at body [] = []"
| "sections_at body [p] = [open_section body p (length body)]"
| "sections_at body (p # q # ps) = open_section body p q # sections_at body (q # ps)"

definition matches_from :: "jstring \<Rightarrow> nat \<Rightarrow> nat list" where
  "matches_from body i = filter (\<lambda>p. match_section body p \<noteq> None) [i ..< Suc (length body)]"

definition close_before :: "sect list \<Rightarrow> nat list \<Rightarrow> sect list" where
  "close_before acc ps = (case ps of [] \<Rightarrow> acc | p # qs \<Rightarrow> close_last acc p)"






text \<open>
  The composed text in closed form. A rule contributes its heading and then either the notice
  or the anchor marker, the badge, the description, the content and the separator; a section
  contributes its heading, its anchor marker and its rules; the table of contents has a line
  for every section and for every rule. \<open>readable\<close> holds when none of the rules names a
  directory, the one case where reading throws.
\<close>

definition rule_body :: "(jstring \<Rightarrow> node option) \<Rightarrow> rule \<Rightarrow> jstring" where
  "rule_body rule_dir r =
     (case rule_dir (rule_file r) of
        None \<Rightarrow> not_found_notice r
      | Some Directory \<Rightarrow> []
      | Some (File text) \<Rightarrow>
          anchor_marker (anchor r)
            @ impact_badge (frontmatter (parseFrontmatter text))
            @ description_quote (frontmatter (parseFrontmatter text))
            @ trim (content (parseFrontmatter text)) @ [LF, LF] @ rule_separator)"

definition rule_log :: "(jstring \<Rightarrow> node option) \<Rightarrow> rule \<Rightarrow> jstring list" where
  "rule_log rule_dir r =
     processing_line r # (if rule_dir (rule_file r) = None then [warning_line (rule_file r)] else [])"

definition rules_text :: "(jstring \<Rightarrow> node option) \<Rightarrow> sect \<Rightarrow> nat \<Rightarrow> rule list \<Rightarrow> jstring" where
  "rules_text rule_dir sec i rs =
     concat (map (\<lambda>(j, r). rule_heading sec r j @ rule_body rule_dir r) (enumerate i rs))"

definition section_text :: "(jstring \<Rightarrow> node option) \<Rightarrow> sect \<Rightarrow> jstring" where
  "section_text rule_dir sec =
     section_heading sec @ anchor_marker (anchor sec) @ rules_text rule_dir sec 0 (rules sec)"

definition found_rules :: "(jstring \<Rightarrow> node option) \<Rightarrow> rule list \<Rightarrow> nat" where
  "found_rules rule_dir rs = length (filter (\<lambda>r. rule_dir (rule_file r) \<noteq> None) rs)"

definition readable :: "(jstring \<Rightarrow> node option) \<Rightarrow> rule list \<Rightarrow> bool" where
  "readable rule_dir rs = list_all (\<lambda>r. rule_dir (rule_file r) \<noteq> Some Directory) rs"

definition toc_rule_line :: "nat \<Rightarrow> nat \<Rightarrow> rule \<Rightarrow> jstring" where
  "toc_rule_line sectionNum j r =
     js ''   '' @ string_of_nat sectionNum @ js ''.'' @ string_of_nat (j + 1)
       @ js ''. ['' @ title r @ js ''](#'' @ anchor r @ js '')'' @ [LF]"

definition toc_section_text :: "nat \<Rightarrow> sect \<Rightarrow> jstring" where
  "toc_section_text i sec =
     string_of_nat (i + 1) @ js ''. ['' @ title sec @ js ''](#'' @ anchor sec @ js '')'' @ [LF]
       @ concat (map (\<lambda>(j, r). toc_rule_line (i + 1) j r) (enumerate 0 (rules sec)))
       @ [LF]"

definition skill_sections :: "jstring \<Rightarrow> sect list" where
  "skill_sections skillContent = extractSections (content (parseFrontmatter skillContent))"

definition all_readable :: "files \<Rightarrow> jstring \<Rightarrow> bool" where
  "all_readable fs skillContent =
     list_all (\<lambda>sec. readable (rule_files fs) (rules sec)) (skill_sections skillContent)"

definition composed :: "files \<Rightarrow> jstring \<Rightarrow> jstring \<Rightarrow> jstring" where
  "composed fs skillContent now =
     frontmatter_block (frontmatter (parseFrontmatter skillContent))
       @ title_block (frontmatter (parseFrontmatter skillContent))
       @ when_to_apply_block (content (parseFrontmatter skillContent))
       @ generateTOC (skill_sections skillContent)
       @ js ''---'' @ [LF, LF]
       @ concat (map (section_text (rule_files fs)) (skill_sections skillContent))
       @ footer_blocks (content (parseFrontmatter skillContent))
       @ timestamp_footer now"

section \<open>Example inputs\<close>

text \<open>
  A working directory that holds the repository's scripts, and four notifications: a change
  of the source document, a change of a text file and the creation of a markdown file in the
  rules directory, and a rename of the source document.
\<close>

definition demo_runtime :: runtime where
  "demo_runtime = \<lparr>present = repository_scripts, script_status = (\<lambda>script. 0)\<rparr>"

definition demo_events :: "fs_event list" where
  "demo_events =
     [\<lparr>source = SkillWatcher, eventType = js ''change'', filename = Some (js ''SKILL.md''),
       local_time = js ''10:00:01''\<rparr>,
      \<lparr>source = RulesWatcher, eventType = js ''change'', filename = Some (js ''notes.txt''),
       local_time = js ''10:00:02''\<rparr>,
      \<lparr>source = RulesWatcher, eventType = js ''rename'', filename = Some (js ''tr-new.md''),
       local_time = js ''10:00:03''\<rparr>,
      \<lparr>source = SkillWatcher, eventType = js ''rename'', filename = Some (js ''SKILL.md''),
       local_time = js ''10:00:04''\<rparr>]"

text \<open>
  The watch scenario of the specification: the source document is modified, and then a text
  file in the rules directory.
\<close>

definition watch_scenario :: "fs_event list" where
  "watch_scenario =
     [\<lparr>source = SkillWatcher, eventType = js ''change'', filename = Some (js ''SKILL.md''),
       local_time = js ''10:00:01''\<rparr>,
      \<lparr>source = RulesWatcher, eventType = js ''change'', filename = Some (js ''notes.txt''),
       local_time = js ''10:00:02''\<rparr>]"

text \<open>A body with text before its first section heading.\<close>

definition demo_body :: jstring where
  "demo_body = js ''intro\<newline>### 1. Alpha\<newline>text\<newline>### 22. Beta\<newline>more''"

text \<open>
  The end-to-end scenario of the specification with the rule file deleted: one section with
  one link, and no rule file.
\<close>

definition build_time :: jstring where
  "build_time = js ''2026-01-01T00:00:00.000Z''"

definition scenario_skill :: jstring where
  "scenario_skill = js ''### 1. Example\<newline>[My Rule](rules/my-rule.md)\<newline>''"

definition scenario_missing :: files where
  "scenario_missing =
     \<lparr>skill_file = Some (File scenario_skill), rule_files = Map.empty,
      output_path = js ''skills/composio/AGENTS.md''\<rparr>"

text \<open>A source document whose only heading is numbered 5, and sections whose numbers are 5 and 2.\<close>

definition renumbered :: files where
  "renumbered =
     \<lparr>skill_file = Some (File (js ''### 5. Foo'')), rule_files = Map.empty,
      output_path = js ''skills/composio/AGENTS.md''\<rparr>"

definition two_sections :: "sect list" where
  "two_sections = extractSections (js ''### 5. Foo\<newline>[R](rules/r.md)\<newline>### 2. Bar\<newline>'')"

definition empty_state :: build_state where
  "empty_state = \<lparr>output_text = [], console = [], processedRules = 0\<rparr>"

text \<open>A section with a missing rule followed by a rule that is found.\<close>

definition mixed_section :: sect where
  "mixed_section =
     hd (extractSections
       (js ''### 1. Example\<newline>[My Rule](rules/my-rule.md)\<newline>[Other](rules/other.md)\<newline>''))"

definition mixed_dir :: "jstring \<Rightarrow> node option" where
  "mixed_dir =
     [js ''other.md'' \<mapsto>
        File (js ''---\<newline>title: Other\<newline>impact: HIGH\<newline>description: test\<newline>---\<newline>\<newline>Hello world.\<newline>'')]"




section \<open>Verification: anchor generator\<close>

lemma is_upper_iff: "is_upper c \<longleftrightarrow> 0x41 \<le> c \<and> c \<le> 0x5A"
proof -
  have eq: "upper_chars = [0x41..0x5A]"
    by (simp add: upper_chars_def)
  show ?thesis
    unfolding is_upper_def eq by (simp only: set_upto atLeastAtMost_iff)
qed

lemma anchor_char_ascii: "anchor_char c \<Longrightarrow> c < 0x80 \<and> \<not> is_upper c"
  unfolding is_upper_iff
  by (auto simp: anchor_char_def lower_chars_def digit_chars_def js_def)

lemma anchor_char_not_space: "anchor_char c \<Longrightarrow> \<not> is_space c"
  by (auto simp: anchor_char_def is_space_def is_line_terminator_def LF_def CR_def
      lower_chars_def digit_chars_def js_def)

lemma word_not_upper: "is_word c \<or> c = of_char CHR ''-'' \<Longrightarrow> \<not> is_upper c \<Longrightarrow> anchor_char c"
  by (auto simp: is_word_def is_upper_def anchor_char_def)

lemma lower_ranges_images: "list_all (\<lambda>(lo, hi, step, offset). 0x5A < lo + offset) lower_ranges"
  by (simp add: lower_ranges_def)

lemma lower_mapping_not_upper:
  assumes "u \<in> set (lower_mapping cp)"
  shows "\<not> is_upper u"
proof -
  let ?P = "\<lambda>(lo, hi, step, offset). lo \<le> cp \<and> cp \<le> hi \<and> (cp - lo) mod step = 0"
  consider "0x41 \<le> cp \<and> cp \<le> 0x5A" | "\<not> (0x41 \<le> cp \<and> cp \<le> 0x5A)" "cp < 0x80 \<or> cp = 0x130"
    | "\<not> (0x41 \<le> cp \<and> cp \<le> 0x5A)" "\<not> cp < 0x80" "cp \<noteq> 0x130"
    by blast
  then show ?thesis
  proof cases
    case 1
    with assms show ?thesis
      by (auto simp: lower_mapping_def is_upper_iff)
  next
    case 2
    with assms show ?thesis
      by (auto simp: lower_mapping_def is_upper_iff split: if_splits)
  next
    case 3
    show ?thesis
    proof (cases "List.find ?P lower_ranges")
      case None
      with 3 assms have "u = cp"
        by (simp add: lower_mapping_def)
      with 3 show ?thesis
        by (simp add: is_upper_iff)
    next
      case (Some row)
      obtain lo hi step offset where row: "row = (lo, hi, step, offset)"
        by (cases row)
      from Some row 3 assms have u: "u = cp + offset"
        by (simp add: lower_mapping_def)
      from Some have "row \<in> set lower_ranges" and "?P row"
        unfolding find_Some_iff by (auto simp: in_set_conv_nth)
      with row lower_ranges_images have "0x5A < lo + offset" and "lo \<le> cp"
        by (auto simp: list_all_iff)
      with u show ?thesis
        by (simp add: is_upper_iff)
    qed
  qed
qed

lemma lower_points_not_upper: "u \<in> set (lower_points before cps) \<Longrightarrow> \<not> is_upper u"
proof (induction cps arbitrary: before)
  case Nil
  then show ?case by simp
next
  case (Cons cp cps)
  then show ?case
    by (auto simp: is_upper_iff dest: lower_mapping_not_upper split: if_splits)
qed

lemma code_units_not_upper: "u \<in> set (code_units cp) \<Longrightarrow> \<not> is_upper cp \<Longrightarrow> \<not> is_upper u"
proof -
  assume u: "u \<in> set (code_units cp)" and cp: "\<not> is_upper cp"
  show ?thesis
  proof (cases "cp < 0x10000")
    case True
    with u cp show ?thesis by (simp add: code_units_def)
  next
    case False
    then have "0 \<le> (cp - 0x10000) div 0x400" and "0 \<le> (cp - 0x10000) mod 0x400"
      by simp_all
    with False u show ?thesis
      by (auto simp: code_units_def is_upper_iff)
  qed
qed

lemma toLowerCase_not_upper: "u \<in> set (toLowerCase s) \<Longrightarrow> \<not> is_upper u"
  unfolding toLowerCase_def
  by (auto dest: code_units_not_upper lower_points_not_upper)

lemma lower_mapping_ascii: "cp < 0x80 \<Longrightarrow> \<not> is_upper cp \<Longrightarrow> lower_mapping cp = [cp]"
  by (simp add: lower_mapping_def is_upper_iff)

lemma code_points_id: "\<forall>c \<in> set s. \<not> is_high_surrogate c \<Longrightarrow> code_points s = s"
  by (induction s rule: code_points.induct) auto

lemma lower_points_ascii:
  "\<forall>c \<in> set cps. c < 0x80 \<and> \<not> is_upper c \<Longrightarrow> lower_points before cps = cps"
  by (induction cps arbitrary: before) (auto simp: lower_mapping_ascii)

lemma code_units_ascii: "\<forall>c \<in> set cps. c < 0x80 \<Longrightarrow> concat (map code_units cps) = cps"
  by (induction cps) (auto simp: code_units_def)

lemma toLowerCase_ascii:
  assumes "\<forall>c \<in> set s. c < 0x80 \<and> \<not> is_upper c"
  shows "toLowerCase s = s"
proof -
  from assms have "code_points s = s"
    by (intro code_points_id) (auto simp: is_high_surrogate_def)
  with assms show ?thesis
    by (simp add: toLowerCase_def lower_points_ascii code_units_ascii)
qed

lemma toLowerCase_id: "\<forall>c \<in> set s. anchor_char c \<Longrightarrow> toLowerCase s = s"
  by (rule toLowerCase_ascii) (simp add: anchor_char_ascii)

lemma replace_ws_runs_chars:
  "c \<in> set (replace_ws_runs s) \<Longrightarrow> c = of_char CHR ''-'' \<or> (c \<in> set s \<and> \<not> is_space c)"
proof (induction s rule: replace_ws_runs.induct)
  case 1
  then show ?case by simp
next
  case (2 d ds)
  then show ?case
    by (auto split: if_splits dest: set_dropWhileD)
qed

lemma replace_ws_runs_id: "\<forall>c \<in> set s. \<not> is_space c \<Longrightarrow> replace_ws_runs s = s"
  by (induction s) auto

lemma strip_non_word_id: "\<forall>c \<in> set s. anchor_char c \<Longrightarrow> strip_non_word s = s"
  unfolding strip_non_word_def
  by (rule filter_True) (auto simp: anchor_char_def is_word_def)

lemma createAnchor_chars: "c \<in> set (createAnchor t) \<Longrightarrow> anchor_char c"
proof -
  assume "c \<in> set (createAnchor t)"
  then have "c = of_char CHR ''-'' \<or> (c \<in> set (strip_non_word (toLowerCase t)) \<and> \<not> is_space c)"
    unfolding createAnchor_def by (rule replace_ws_runs_chars)
  then show ?thesis
  proof
    assume "c = of_char CHR ''-''"
    then show ?thesis by (simp add: anchor_char_def)
  next
    assume h: "c \<in> set (strip_non_word (toLowerCase t)) \<and> \<not> is_space c"
    then have "c \<in> set (toLowerCase t)" and "is_word c \<or> c = of_char CHR ''-''"
      by (auto simp: strip_non_word_def)
    then show ?thesis
      by (intro word_not_upper toLowerCase_not_upper)
  qed
qed

lemma createAnchor_fixed: "\<forall>c \<in> set s. anchor_char c \<Longrightarrow> createAnchor s = s"
  by (simp add: createAnchor_def toLowerCase_id strip_non_word_id replace_ws_runs_id
      anchor_char_not_space)

lemma concat_runs: "concat (runs P xs) = xs"
  by (induction P xs rule: runs.induct) simp_all

lemma replace_ws_runs_append:
  "\<forall>c \<in> set xs. \<not> is_space c \<Longrightarrow> replace_ws_runs (xs @ ys) = xs @ replace_ws_runs ys"
  by (induction xs) auto

lemma replace_ws_runs_spec: "replace_ws_runs s = collapse_ws_spec s"
  unfolding collapse_ws_spec_def
proof (induction is_space s rule: runs.induct)
  case 1
  then show ?case by simp
next
  case (2 x xs)
  show ?case
  proof (cases "is_space x")
    case True
    then have eq: "(\<lambda>y. is_space y = is_space x) = is_space" by auto
    with True 2 show ?thesis by simp
  next
    case False
    then have eq: "(\<lambda>y. is_space y = is_space x) = (\<lambda>y. \<not> is_space y)" by auto
    have "replace_ws_runs xs
        = replace_ws_runs (takeWhile (\<lambda>y. \<not> is_space y) xs @ dropWhile (\<lambda>y. \<not> is_space y) xs)"
      by simp
    also have "\<dots> = takeWhile (\<lambda>y. \<not> is_space y) xs
        @ replace_ws_runs (dropWhile (\<lambda>y. \<not> is_space y) xs)"
      by (rule replace_ws_runs_append) (auto dest: set_takeWhileD)
    finally show ?thesis using False 2 eq by simp
  qed
qed

text \<open>
  Titles outside ASCII: a no-break space is whitespace and becomes a hyphen; capital I with
  dot above and the Kelvin sign have lower-case forms in ASCII, which stay, while the
  combining dot and an accented letter are removed.
\<close>

lemma createAnchor_beyond_ascii:
  "createAnchor (js ''a'' @ [0x00A0] @ js ''b'') = js ''a-b''
   \<and> createAnchor ([0x0130] @ js ''stanbul '' @ [0x212A]) = js ''istanbul-k''
   \<and> createAnchor (js ''Caf'' @ [0x00C9] @ js '' Menu'') = js ''caf-menu''"
  by code_simp

text \<open>
  C5. The anchor generator is a function of the title alone. It lowercases the title, removes
  every character that is not a word character, whitespace or a hyphen, and replaces each
  maximal run of whitespace with one hyphen. Applying it to its own result changes nothing,
  and the anchor of \<^verbatim>\<open>User ID Best Practices\<close> is \<^verbatim>\<open>user-id-best-practices\<close>.
\<close>

theorem createAnchor_contract:
  "createAnchor t
     = collapse_ws_spec (filter (\<lambda>c. is_word c \<or> is_space c \<or> c = of_char CHR ''-'') (toLowerCase t))
   \<and> createAnchor (createAnchor t) = createAnchor t
   \<and> createAnchor (js ''User ID Best Practices'') = js ''user-id-best-practices''"
proof (intro conjI)
  show "createAnchor t
     = collapse_ws_spec (filter (\<lambda>c. is_word c \<or> is_space c \<or> c = of_char CHR ''-'') (toLowerCase t))"
    by (simp add: createAnchor_def strip_non_word_def replace_ws_runs_spec)
  show "createAnchor (createAnchor t) = createAnchor t"
    by (rule createAnchor_fixed) (simp add: createAnchor_chars)
  show "createAnchor (js ''User ID Best Practices'') = js ''user-id-best-practices''"
    by code_simp
qed

theorem createAnchor_contract_witness:
  "createAnchor (js ''Hello,   World! (v2)'') = js ''hello-world-v2''
   \<and> createAnchor (js ''hello-world-v2'') = js ''hello-world-v2''"
proof -
  have "createAnchor (js ''Hello,   World! (v2)'') = js ''hello-world-v2''"
    by code_simp
  with createAnchor_contract [of "js ''Hello,   World! (v2)''", THEN conjunct2, THEN conjunct1]
  show ?thesis
    by simp
qed

section \<open>Verification: frontmatter parser\<close>

lemma split_on_not_Nil: "split_on d s \<noteq> []"
  by (induction s) (auto split: list.splits)

lemma split_on_append: "split_on d (xs @ d # ys) = split_on d xs @ split_on d ys"
proof (induction xs)
  case Nil
  then show ?case by simp
next
  case (Cons x xs)
  obtain l ls where "split_on d xs = l # ls"
    using split_on_not_Nil [of d xs] by (cases "split_on d xs") auto
  with Cons show ?case by simp
qed

lemma find_closing_Some:
  "find_closing s = Some (a, r) \<Longrightarrow> s = a @ closing_delimiter @ r"
proof (induction s arbitrary: a)
  case Nil
  then show ?case by simp
next
  case (Cons c cs)
  show ?case
  proof (cases "prefix closing_delimiter (c # cs)")
    case True
    with Cons.prems have "a = []" "r = drop (length closing_delimiter) (c # cs)"
      by auto
    with True show ?thesis
      by (metis append_Nil append_eq_conv_conj prefix_def)
  next
    case False
    with Cons.prems obtain a' where "find_closing cs = Some (a', r)" "a = c # a'"
      by (auto split: option.splits)
    with Cons.IH show ?thesis by simp
  qed
qed

lemma match_frontmatter_Some:
  assumes "match_frontmatter text = Some (a, r)"
  shows "text = js ''---'' @ [LF] @ a @ closing_delimiter @ r"
proof -
  from assms have p: "prefix (js ''---'' @ [LF]) text" and f: "find_closing (drop 4 text) = Some (a, r)"
    by (auto simp: match_frontmatter_def split: if_splits)
  from p have "text = (js ''---'' @ [LF]) @ drop 4 text"
    by (auto simp: prefix_def)
  with find_closing_Some [OF f] show ?thesis
    by simp
qed

lemma match_frontmatter_closing_line:
  assumes "match_frontmatter text = Some (a, r)"
  shows "has_closing_line text"
proof -
  have "text = js ''---'' @ LF # (a @ LF # (js ''---'' @ LF # r))"
    using match_frontmatter_Some [OF assms] by (simp add: closing_delimiter_def)
  then have "split_on LF text
      = split_on LF (js ''---'') @ split_on LF a @ split_on LF (js ''---'') @ split_on LF r"
    by (metis split_on_append)
  moreover have "split_on LF (js ''---'') = [js ''---'']"
    by (simp add: LF_def)
  moreover obtain l ls where "split_on LF r = l # ls"
    using split_on_not_Nil [of LF r] by (cases "split_on LF r") auto
  ultimately have "butlast (tl (split_on LF text)) = split_on LF a @ js ''---'' # butlast (l # ls)"
    by (simp add: butlast_append)
  then show ?thesis
    by (simp add: has_closing_line_def)
qed

text \<open>
  C6. A text that does not begin with the opening delimiter line, \<^verbatim>\<open>---\<close> and a line feed, is
  parsed to the empty frontmatter and to itself, unchanged, as the body.
\<close>

theorem parseFrontmatter_no_opening:
  "\<not> prefix (js ''---'' @ [LF]) text \<Longrightarrow> parseFrontmatter text = \<lparr>frontmatter = [], content = text\<rparr>"
  by (simp add: parseFrontmatter_def match_frontmatter_def)

theorem parseFrontmatter_no_opening_witness:
  "\<not> prefix (js ''---'' @ [LF]) (js ''# Title'')
   \<and> parseFrontmatter (js ''# Title'') = \<lparr>frontmatter = [], content = js ''# Title''\<rparr>"
proof -
  have h: "\<not> prefix (js ''---'' @ [LF]) (js ''# Title'')" by simp
  from parseFrontmatter_no_opening [OF h] h show ?thesis by simp
qed

text \<open>
  C10. A text that begins with the opening delimiter line and has no later line \<^verbatim>\<open>---\<close> that
  is followed by a newline is parsed as a text without frontmatter: the frontmatter is empty
  and the body is the whole text, the opening line included. The parser is a total function,
  so it raises nothing.
\<close>

theorem parseFrontmatter_unterminated:
  assumes "prefix (js ''---'' @ [LF]) text" and "\<not> has_closing_line text"
  shows "parseFrontmatter text = \<lparr>frontmatter = [], content = text\<rparr>"
proof (cases "match_frontmatter text")
  case None
  then show ?thesis by (simp add: parseFrontmatter_def)
next
  case (Some m)
  then have "has_closing_line text"
    using match_frontmatter_closing_line [of "text" "fst m" "snd m"] by simp
  with assms(2) show ?thesis by simp
qed

theorem parseFrontmatter_unterminated_witness:
  "prefix (js ''---'' @ [LF]) (js ''---\<newline>name: demo\<newline>---'')
   \<and> \<not> has_closing_line (js ''---\<newline>name: demo\<newline>---'')
   \<and> parseFrontmatter (js ''---\<newline>name: demo\<newline>---'')
       = \<lparr>frontmatter = [], content = js ''---\<newline>name: demo\<newline>---''\<rparr>"
proof -
  have h1: "prefix (js ''---'' @ [LF]) (js ''---\<newline>name: demo\<newline>---'')"
    by (simp add: LF_def)
  have h2: "\<not> has_closing_line (js ''---\<newline>name: demo\<newline>---'')"
    by (simp add: has_closing_line_def LF_def)
  from parseFrontmatter_unterminated [OF h1 h2] h1 h2 show ?thesis by blast
qed

section \<open>Verification: watch driver\<close>

lemma executed_rebuild: "executed (rebuild rt ts st) = executed st @ [build_command]"
  by (simp add: rebuild_def Let_def)

lemma executed_on_event:
  "executed (on_event rt st ev) = executed st @ (if qualifies ev then [build_command] else [])"
  by (auto simp: on_event_def qualifies_def executed_rebuild suffix_def
      split: watcher.splits option.splits)

lemma executed_watch_start: "executed (watch_start rt sp rp ts) = [build_command]"
  by (simp add: watch_start_def Let_def executed_rebuild)

lemma executed_foldl:
  "executed (foldl (on_event rt) st evs)
     = executed st @ replicate (length (filter qualifies evs)) build_command"
proof (induction evs arbitrary: st)
  case Nil
  then show ?case by simp
next
  case (Cons ev evs)
  show ?case
    by (simp add: Cons.IH executed_on_event replicate_app_Cons_same)
qed

lemma on_event_ignored: "\<not> qualifies ev \<Longrightarrow> on_event rt st ev = st"
  by (auto simp: on_event_def qualifies_def split: watcher.splits option.splits)

text \<open>
  The calls of \<^verbatim>\<open>rebuild\<close>: one at start-up, and one for a notification exactly when it
  qualifies; a notification that does not qualify changes nothing. Each call hands the build
  command to \<^verbatim>\<open>execSync\<close>, so after any sequence of notifications the commands executed are
  one more than the qualifying notifications. Whether a command builds anything is the
  runtime's matter.
\<close>

lemma rebuild_calls:
  "executed (watch_start rt sp rp ts) = [build_command]
   \<and> executed (on_event rt st ev) = executed st @ (if qualifies ev then [build_command] else [])
   \<and> (\<not> qualifies ev \<longrightarrow> on_event rt st ev = st)
   \<and> length (executed (watch rt sp rp ts evs)) = 1 + length (filter qualifies evs)"
proof (intro conjI)
  show "executed (watch_start rt sp rp ts) = [build_command]"
    by (rule executed_watch_start)
  show "executed (on_event rt st ev) = executed st @ (if qualifies ev then [build_command] else [])"
    by (rule executed_on_event)
  show "\<not> qualifies ev \<longrightarrow> on_event rt st ev = st"
    by (simp add: on_event_ignored)
  show "length (executed (watch rt sp rp ts evs)) = 1 + length (filter qualifies evs)"
    by (simp add: watch_def executed_foldl executed_watch_start)
qed

lemma rebuild_calls_demo:
  "\<not> qualifies (demo_events ! 1)
   \<and> on_event demo_runtime (watch_start demo_runtime (js ''SKILL.md'') (js ''rules'') (js ''10:00:00'')) (demo_events ! 1)
       = watch_start demo_runtime (js ''SKILL.md'') (js ''rules'') (js ''10:00:00'')
   \<and> length (executed (watch demo_runtime (js ''SKILL.md'') (js ''rules'') (js ''10:00:00'') demo_events)) = 3"
proof -
  have q: "\<not> qualifies (demo_events ! 1)"
    by (simp add: demo_events_def qualifies_def suffix_to_prefix)
  have n: "length (filter qualifies demo_events) = 2"
    by (simp add: demo_events_def qualifies_def suffix_to_prefix)
  from rebuild_calls [of demo_runtime "js ''SKILL.md''" "js ''rules''" "js ''10:00:00''"
      "watch_start demo_runtime (js ''SKILL.md'') (js ''rules'') (js ''10:00:00'')" "demo_events ! 1" demo_events]
    q n
  show ?thesis by simp
qed

lemma log_watch_starts_ESC:
  "c \<in> {(js ''yellow''), js ''cyan'', js ''blue'', js ''magenta'', js ''green''} \<Longrightarrow> hd (log watch_colors m c) = ESC"
  by (auto simp: log_def watch_colors_def build_colors_def)

lemma failed_line_hd: "hd failed_line = of_char CHR ''u''"
  by (simp add: failed_line_def log_def watch_colors_def build_colors_def)

lemma log_not_failed:
  "c \<in> {(js ''yellow''), js ''cyan'', js ''blue'', js ''magenta'', js ''green''} \<Longrightarrow> log watch_colors m c \<noteq> failed_line"
  using log_watch_starts_ESC [of c m] failed_line_hd by (auto simp: ESC_def)

lemma execSync_unresolved:
  "node_resolve (present rt) (js ''scripts/build-agents.js'') = None
     \<Longrightarrow> execSync rt build_command = (None, False)"
  by (simp add: execSync_def build_command_def)

lemma rebuild_unresolved:
  assumes "node_resolve (present rt) (js ''scripts/build-agents.js'') = None"
  shows "scripts_run (rebuild rt ts st) = scripts_run st
       \<and> failures (rebuild rt ts st) = Suc (failures st)"
  using assms log_not_failed [of "js ''yellow''"]
  by (simp add: rebuild_def Let_def execSync_unresolved failures_def failed_line_def)

lemma on_event_unresolved:
  assumes "node_resolve (present rt) (js ''scripts/build-agents.js'') = None"
  shows "scripts_run (on_event rt st ev) = scripts_run st
       \<and> failures (on_event rt st ev) = failures st + (if qualifies ev then 1 else 0)"
proof (cases "qualifies ev")
  case False
  then show ?thesis by (simp add: on_event_ignored)
next
  case True
  then obtain m where "on_event rt st ev
      = rebuild rt (local_time ev) (st\<lparr>terminal := terminal st @ [log watch_colors m (js ''yellow'')]\<rparr>)"
    by (auto simp: on_event_def qualifies_def suffix_def split: watcher.splits option.splits)
  with True rebuild_unresolved [OF assms] log_not_failed [of "js ''yellow''" m] show ?thesis
    by (simp add: failures_def)
qed

lemma foldl_unresolved:
  assumes "node_resolve (present rt) (js ''scripts/build-agents.js'') = None"
  shows "scripts_run (foldl (on_event rt) st evs) = scripts_run st
       \<and> failures (foldl (on_event rt) st evs) = failures st + length (filter qualifies evs)"
proof (induction evs arbitrary: st)
  case Nil
  then show ?case by simp
next
  case (Cons ev evs)
  then show ?case
    using on_event_unresolved [OF assms, of st ev] by simp
qed

lemma watch_start_unresolved:
  assumes "node_resolve (present rt) (js ''scripts/build-agents.js'') = None"
  shows "scripts_run (watch_start rt sp rp ts) = [] \<and> failures (watch_start rt sp rp ts) = 1"
proof -
  let ?st0 = "\<lparr>terminal =
                    [log watch_colors ([LF] @ sym_eyes @ js '' Watching for changes...'') (js ''cyan''),
                     log watch_colors separator_line (js ''cyan''),
                     log watch_colors (sym_folder @ js '' SKILL.md: '' @ sp) (js ''blue''),
                     log watch_colors (sym_folder @ js '' Rules: '' @ rp) (js ''blue''),
                     log watch_colors separator_line (js ''cyan''),
                     log watch_colors (js ''Press Ctrl+C to stop'' @ [LF]) (js ''magenta'')],
                  executed = [], scripts_run = []\<rparr>"
  have "failures ?st0 = 0"
    using log_not_failed [of "js ''cyan''"] log_not_failed [of "js ''blue''"] log_not_failed [of "js ''magenta''"]
    by (simp add: failures_def)
  with rebuild_unresolved [OF assms, of ts ?st0] log_not_failed [of "js ''green''"]
  show ?thesis
    by (simp add: watch_start_def Let_def failures_def)
qed

text \<open>
  C9. Every rebuild executes \<^verbatim>\<open>node scripts/build-agents.js\<close>. The scripts directory of the
  repository holds \<^verbatim>\<open>build-agents.cjs\<close> and no \<^verbatim>\<open>build-agents.js\<close>, and there Node finds no
  script for that path. In every working directory where it finds none, no rebuild of the
  watch driver runs any script: each one prints the failure line, and the driver goes on to
  handle every later notification.
\<close>

theorem watch_never_builds:
  assumes "node_resolve (present rt) (js ''scripts/build-agents.js'') = None"
  shows "build_command = js ''node scripts/build-agents.js''
       \<and> (js ''scripts/build-agents.js'') \<notin> set repository_scripts
       \<and> (js ''scripts/build-agents.cjs'') \<in> set repository_scripts
       \<and> node_resolve repository_scripts (js ''scripts/build-agents.js'') = None
       \<and> set (executed (watch rt sp rp ts evs)) = {build_command}
       \<and> length (executed (watch rt sp rp ts evs)) = Suc (length (filter qualifies evs))
       \<and> scripts_run (watch rt sp rp ts evs) = []
       \<and> failures (watch rt sp rp ts evs) = length (executed (watch rt sp rp ts evs))"
proof -
  note un = assms
  have ex: "executed (watch rt sp rp ts evs)
      = replicate (Suc (length (filter qualifies evs))) build_command"
    by (simp add: watch_def executed_foldl executed_watch_start)
  have run: "scripts_run (watch rt sp rp ts evs) = []"
    and fail: "failures (watch rt sp rp ts evs) = Suc (length (filter qualifies evs))"
    using foldl_unresolved [OF un, of "watch_start rt sp rp ts" evs]
      watch_start_unresolved [OF un, of sp rp ts]
    by (simp_all add: watch_def)
  have "build_command = js ''node scripts/build-agents.js''"
    by (simp add: build_command_def)
  moreover have "js ''scripts/build-agents.js'' \<notin> set repository_scripts"
    and "js ''scripts/build-agents.cjs'' \<in> set repository_scripts"
    by (simp_all add: repository_scripts_def)
  moreover have "node_resolve repository_scripts (js ''scripts/build-agents.js'') = None"
    by (simp add: node_resolve_def node_candidates_def repository_scripts_def)
  moreover have "set (executed (watch rt sp rp ts evs)) = {build_command}"
    by (auto simp: ex)
  moreover have "length (executed (watch rt sp rp ts evs)) = Suc (length (filter qualifies evs))"
    by (simp add: ex)
  moreover have "failures (watch rt sp rp ts evs) = length (executed (watch rt sp rp ts evs))"
    by (simp add: ex fail)
  ultimately show ?thesis
    using run by simp
qed

theorem watch_never_builds_witness:
  "node_resolve (present demo_runtime) (js ''scripts/build-agents.js'') = None
   \<and> scripts_run (watch demo_runtime (js ''SKILL.md'') (js ''rules'') (js ''10:00:00'') demo_events) = []
   \<and> failures (watch demo_runtime (js ''SKILL.md'') (js ''rules'') (js ''10:00:00'') demo_events) = 3"
proof -
  have p: "node_resolve (present demo_runtime) (js ''scripts/build-agents.js'') = None"
    by (simp add: demo_runtime_def node_resolve_def node_candidates_def repository_scripts_def)
  have "length (filter qualifies demo_events) = 2"
    by (simp add: demo_events_def qualifies_def suffix_to_prefix)
  with watch_never_builds [OF p, of "js ''SKILL.md''" "js ''rules''" "js ''10:00:00''" demo_events] p
  show ?thesis by simp
qed

text \<open>
  C8. The claim fails in the repository as committed. In the watch scenario of the
  specification the driver is started and the source document is modified, which qualifies,
  and then a text file in the rules directory, which does not. The driver executes the build
  command at start-up and once more for the modified source document, as the claim says, but
  the command names \<^verbatim>\<open>scripts/build-agents.js\<close> where the repository has
  \<^verbatim>\<open>scripts/build-agents.cjs\<close>: no script runs, no build is performed, and both attempts are
  reported as failed.
\<close>

theorem watch_scenario_builds_nothing:
  "map qualifies watch_scenario = [True, False]
   \<and> executed (watch demo_runtime (js ''skills/composio/SKILL.md'') (js ''skills/composio/rules'')
         (js ''10:00:00'') watch_scenario) = [build_command, build_command]
   \<and> scripts_run (watch demo_runtime (js ''skills/composio/SKILL.md'') (js ''skills/composio/rules'')
         (js ''10:00:00'') watch_scenario) = []
   \<and> failures (watch demo_runtime (js ''skills/composio/SKILL.md'') (js ''skills/composio/rules'')
         (js ''10:00:00'') watch_scenario) = 2"
proof -
  let ?sp = "js ''skills/composio/SKILL.md''" and ?rp = "js ''skills/composio/rules''"
    and ?ts = "js ''10:00:00''"
  have p: "node_resolve (present demo_runtime) (js ''scripts/build-agents.js'') = None"
    by (simp add: demo_runtime_def node_resolve_def node_candidates_def repository_scripts_def)
  have q: "map qualifies watch_scenario = [True, False]"
    by (simp add: watch_scenario_def qualifies_def suffix_to_prefix)
  then have n: "length (filter qualifies watch_scenario) = 1"
    by (simp add: watch_scenario_def)
  have "executed (watch demo_runtime ?sp ?rp ?ts watch_scenario)
      = [build_command] @ replicate (length (filter qualifies watch_scenario)) build_command"
    unfolding watch_def executed_foldl executed_watch_start by (rule refl)
  with n have ex: "executed (watch demo_runtime ?sp ?rp ?ts watch_scenario)
      = [build_command, build_command]"
    by simp
  have "scripts_run (watch demo_runtime ?sp ?rp ?ts watch_scenario) = []
      \<and> failures (watch demo_runtime ?sp ?rp ?ts watch_scenario)
          = 1 + length (filter qualifies watch_scenario)"
    using foldl_unresolved [OF p, of "watch_start demo_runtime ?sp ?rp ?ts" watch_scenario]
      watch_start_unresolved [OF p, of ?sp ?rp ?ts]
    unfolding watch_def by simp
  with n q ex show ?thesis
    by simp
qed

theorem watch_scenario_builds_nothing_witness:
  "scripts_run (watch demo_runtime (js ''skills/composio/SKILL.md'') (js ''skills/composio/rules'')
     (js ''10:00:00'') watch_scenario) = []"
  using watch_scenario_builds_nothing by blast

section \<open>Verification: section splitter\<close>

lemma first_match_None: "first_match m s ps = None \<Longrightarrow> filter (\<lambda>p. m s p \<noteq> None) ps = []"
  by (induction ps) (auto split: option.splits)

lemma first_match_upt:
  "first_match m s [i ..< n] = Some (p, r) \<Longrightarrow>
     i \<le> p \<and> p < n \<and> m s p = Some r \<and> filter (\<lambda>q. m s q \<noteq> None) [i ..< p] = []"
proof (induction "n - i" arbitrary: i)
  case 0
  then show ?case by simp
next
  case (Suc d)
  then have lt: "i < n" by simp
  then have up: "[i ..< n] = i # [Suc i ..< n]" by (simp add: upt_conv_Cons)
  show ?case
  proof (cases "m s i")
    case None
    with Suc.prems up have fm: "first_match m s [Suc i ..< n] = Some (p, r)" by simp
    from Suc.hyps(2) have "d = n - Suc i" by simp
    from Suc.hyps(1) [OF this fm] have ih: "Suc i \<le> p" "p < n" "m s p = Some r"
      "filter (\<lambda>q. m s q \<noteq> None) [Suc i ..< p] = []" by auto
    from ih(1) have "[i ..< p] = i # [Suc i ..< p]" by (simp add: upt_conv_Cons)
    with ih None show ?thesis by simp
  next
    case (Some a)
    with Suc.prems up have "p = i" "r = a" by auto
    with Some lt show ?thesis by simp
  qed
qed

lemma matches_from_None:
  "regex_exec match_section body i = None \<Longrightarrow> matches_from body i = []"
  unfolding regex_exec_def matches_from_def by (rule first_match_None)

lemma digit_not_terminator: "is_digit c \<Longrightarrow> \<not> is_line_terminator c"
  by (auto simp: is_digit_def digit_chars_def is_line_terminator_def LF_def CR_def)

lemma match_section_text:
  assumes "match_section s p = Some (num, ttl, len)"
  shows "\<exists>rest. drop p s = js ''### '' @ num @ js ''. '' @ ttl @ rest
           \<and> len = length (js ''### '' @ num @ js ''. '' @ ttl)
           \<and> (\<forall>c \<in> set (js ''### '' @ num @ js ''. '' @ ttl). \<not> is_line_terminator c)
           \<and> at_line_start s p \<and> num \<noteq> [] \<and> ttl \<noteq> []"
proof -
  define s0 where "s0 = drop p s"
  define ad where "ad = dropWhile is_digit (drop 4 s0)"
  from assms have num: "num = takeWhile is_digit (drop 4 s0)"
    and ttl: "ttl = takeWhile (\<lambda>c. \<not> is_line_terminator c) (drop 2 ad)"
    and len: "len = 4 + length num + 2 + length ttl"
    and pre: "prefix (js ''### '') s0" "prefix (js ''. '') ad"
    and rest: "at_line_start s p" "num \<noteq> []" "ttl \<noteq> []"
    by (auto simp: match_section_def Let_def s0_def ad_def split: if_splits)
  from pre(1) have a: "s0 = js ''### '' @ drop 4 s0"
    by (auto simp: prefix_def)
  have b: "drop 4 s0 = num @ ad"
    by (simp add: num ad_def)
  from pre(2) have c: "ad = js ''. '' @ drop 2 ad"
    by (auto simp: prefix_def)
  have d: "drop 2 ad = ttl @ dropWhile (\<lambda>c. \<not> is_line_terminator c) (drop 2 ad)"
    by (simp add: ttl)
  have "s0 = js ''### '' @ num @ js ''. '' @ ttl @ dropWhile (\<lambda>c. \<not> is_line_terminator c) (drop 2 ad)"
    using a b c d by (metis append_assoc)
  moreover have "\<forall>c \<in> set num. \<not> is_line_terminator c"
    unfolding num by (auto dest: set_takeWhileD digit_not_terminator)
  moreover have "\<forall>c \<in> set ttl. \<not> is_line_terminator c"
    unfolding ttl by (auto dest: set_takeWhileD)
  moreover have "\<forall>c \<in> set (js ''### ''). \<not> is_line_terminator c"
    and "\<forall>c \<in> set (js ''. ''). \<not> is_line_terminator c"
    by (auto simp: is_line_terminator_def LF_def CR_def)
  ultimately show ?thesis
    using len rest unfolding s0_def by (intro exI [of _ "dropWhile (\<lambda>c. \<not> is_line_terminator c) (drop 2 ad)"]) auto
qed

lemma match_section_inside:
  assumes "match_section s p = Some (num, ttl, len)" and "p < q" and "q < p + len"
  shows "match_section s q = None"
proof -
  from match_section_text [OF assms(1)] obtain rest where
    dr: "drop p s = (js ''### '' @ num @ js ''. '' @ ttl) @ rest"
    and len: "len = length (js ''### '' @ num @ js ''. '' @ ttl)"
    and nt: "\<forall>c \<in> set (js ''### '' @ num @ js ''. '' @ ttl). \<not> is_line_terminator c"
    by auto
  let ?m = "js ''### '' @ num @ js ''. '' @ ttl"
  from assms(2,3) have k: "q - 1 - p < length ?m" and qp: "q - 1 = p + (q - 1 - p)"
    using len by auto
  have plen: "p + len \<le> length s"
    using match_section_length [OF assms(1)] by simp
  have "s ! (q - 1) = drop p s ! (q - 1 - p)"
    using qp plen assms(3) by (metis add_leE le_add_diff_inverse nth_drop nat_le_linear order_trans)
  also have "\<dots> = ?m ! (q - 1 - p)"
    using k by (simp only: dr nth_append if_True)
  finally have "s ! (q - 1) \<in> set ?m"
    using k by (metis nth_mem)
  with nt have "\<not> is_line_terminator (s ! (q - 1))" by blast
  with assms(2) have "\<not> at_line_start s q"
    by (simp add: at_line_start_def)
  then show ?thesis
    by (simp add: match_section_def Let_def)
qed

lemma upt_split: "i \<le> j \<Longrightarrow> j \<le> k \<Longrightarrow> [i ..< k] = [i ..< j] @ [j ..< k]"
  using upt_add_eq_append [of i j "k - j"] by simp

lemma matches_from_Some:
  assumes "regex_exec match_section body i = Some (p, num, ttl, len)"
  shows "matches_from body i = p # matches_from body (p + len)"
proof -
  let ?P = "\<lambda>q. match_section body q \<noteq> None"
  let ?n = "Suc (length body)"
  from assms have fm: "first_match match_section body [i ..< ?n] = Some (p, num, ttl, len)"
    by (simp add: regex_exec_def)
  from first_match_upt [OF fm] have ip: "i \<le> p" "p < ?n"
    and m: "match_section body p = Some (num, ttl, len)"
    and before: "filter ?P [i ..< p] = []" by auto
  from match_section_length [OF m] have len: "0 < len" "p + len \<le> length body" by auto
  have "[i ..< ?n] = [i ..< p] @ [p ..< ?n]"
    using ip by (intro upt_split) auto
  moreover have "[p ..< ?n] = [p ..< p + len] @ [p + len ..< ?n]"
    using len by (intro upt_split) auto
  moreover have "[p ..< p + len] = p # [Suc p ..< p + len]"
    using len by (simp add: upt_conv_Cons)
  moreover have "filter ?P [Suc p ..< p + len] = []"
    using match_section_inside [OF m] by (auto simp: filter_empty_conv)
  ultimately show ?thesis
    using before m by (simp add: matches_from_def)
qed

lemma close_last_snoc: "close_last (xs @ [x]) q = xs @ [x\<lparr>endIndex := q\<rparr>]"
  by (simp add: close_last_def nth_append)

lemma sections_at_Cons:
  "sections_at body (p # ps)
     = close_before [open_section body p (length body)] ps @ sections_at body ps"
proof (cases ps)
  case Nil
  then show ?thesis by (simp add: close_before_def)
next
  case (Cons q qs)
  have "(open_section body p (length body))\<lparr>endIndex := q\<rparr> = open_section body p q"
    by (simp add: open_section_def split: option.splits)
  with Cons show ?thesis
    using close_last_snoc [of "[]" "open_section body p (length body)" q]
    by (simp add: close_before_def)
qed

lemma section_loop_closed_form:
  "section_loop body i acc
     = close_before acc (matches_from body i) @ sections_at body (matches_from body i)"
proof (induction body i acc rule: section_loop.induct)
  case (1 body i acc)
  show ?case
  proof (cases "regex_exec match_section body i")
    case None
    then show ?thesis
      by (simp add: section_loop.simps [of body i acc] matches_from_None close_before_def)
  next
    case (Some r)
    obtain p num ttl len where r: "r = (p, num, ttl, len)"
      by (cases r) auto
    let ?new = "\<lparr>title = ttl, anchor = createAnchor ttl, number = num,
                 startIndex = p, endIndex = length body, rules = []\<rparr>"
    from Some r have ex: "regex_exec match_section body i = Some (p, num, ttl, len)" by simp
    have m: "match_section body p = Some (num, ttl, len)"
      using ex first_match_upt [of match_section body i "Suc (length body)" p "(num, ttl, len)"]
      by (simp add: regex_exec_def)
    then have new: "?new = open_section body p (length body)"
      by (simp add: open_section_def)
    have ms: "matches_from body i = p # matches_from body (p + len)"
      by (rule matches_from_Some [OF ex])
    have "section_loop body i acc = section_loop body (p + len) (close_last acc p @ [?new])"
      using ex by (simp add: section_loop.simps [of body i acc])
    also have "\<dots> = close_before (close_last acc p @ [?new]) (matches_from body (p + len))
        @ sections_at body (matches_from body (p + len))"
      using "1.IH" [OF ex refl refl refl] by simp
    also have "close_before (close_last acc p @ [?new]) (matches_from body (p + len))
        = close_last acc p @ close_before [?new] (matches_from body (p + len))"
      by (cases "matches_from body (p + len)") (simp_all add: close_before_def close_last_snoc close_last_snoc [of "[]", simplified])
    finally show ?thesis
      by (simp add: ms close_before_def sections_at_Cons new)
  qed
qed

lemma section_loop_sections_at: "section_loop body 0 [] = sections_at body (heading_starts body)"
  by (simp add: section_loop_closed_form close_before_def close_last_def matches_from_def
      heading_starts_def split: list.splits)

lemma startIndex_sections_at: "map startIndex (sections_at body ps) = ps"
  by (induction body ps rule: sections_at.induct) (simp_all add: open_section_def split: option.splits)

lemma endIndex_sections_at:
  "ps \<noteq> [] \<Longrightarrow> map endIndex (sections_at body ps) = tl ps @ [length body]"
  by (induction body ps rule: sections_at.induct) (simp_all add: open_section_def split: option.splits)

lemma groups_sections_at:
  "\<forall>p \<in> set ps. match_section body p \<noteq> None \<Longrightarrow> s \<in> set (sections_at body ps) \<Longrightarrow>
     \<exists>len. match_section body (startIndex s) = Some (number s, title s, len)
           \<and> anchor s = createAnchor (title s) \<and> rules s = []"
  by (induction body ps rule: sections_at.induct) (auto simp: open_section_def split: option.splits)

lemma slice_drop: "p \<le> q \<Longrightarrow> q \<le> length body \<Longrightarrow> slice body p q @ drop q body = drop p body"
proof -
  assume "p \<le> q" "q \<le> length body"
  then have "drop q body = drop (q - p) (drop p body)" by simp
  then show ?thesis
    unfolding slice_def by (metis append_take_drop_id)
qed

lemma spans_sections_at:
  "sorted_wrt (<) ps \<Longrightarrow> \<forall>p \<in> set ps. p \<le> length body \<Longrightarrow> ps \<noteq> [] \<Longrightarrow>
     concat (spans body (sections_at body ps)) = drop (hd ps) body"
proof (induction body ps rule: sections_at.induct)
  case (1 body)
  then show ?case by simp
next
  case (2 body p)
  then show ?case
    by (simp add: spans_def open_section_def slice_def split: option.splits)
next
  case (3 body p q ps)
  have "slice body p q @ drop q body = drop p body"
    using 3 by (intro slice_drop) auto
  moreover have "startIndex (open_section body p q) = p" "endIndex (open_section body p q) = q"
    by (simp_all add: open_section_def split: option.splits)
  ultimately show ?case
    using 3 by (simp add: spans_def)
qed

lemma heading_starts_sorted: "sorted_wrt (<) (heading_starts body)"
  unfolding heading_starts_def by (rule sorted_wrt_filter) (rule sorted_wrt_upt)

lemma heading_starts_match:
  "p \<in> set (heading_starts body) \<Longrightarrow> match_section body p \<noteq> None \<and> p < length body"
proof -
  assume "p \<in> set (heading_starts body)"
  then have m: "match_section body p \<noteq> None"
    by (simp add: heading_starts_def del: upt_Suc)
  then obtain num ttl len where "match_section body p = Some (num, ttl, len)"
    by auto
  from match_section_length [OF this] m show ?thesis by auto
qed

lemma sorted_wrt_tl_bound:
  "sorted_wrt (<) (ps :: nat list) \<Longrightarrow> \<forall>p \<in> set ps. p < n \<Longrightarrow> k < length ps \<Longrightarrow>
     ps ! k < (tl ps @ [n]) ! k \<and> (tl ps @ [n]) ! k \<le> n"
proof (induction ps arbitrary: k)
  case Nil
  then show ?case by simp
next
  case (Cons p ps)
  show ?case
  proof (cases k)
    case 0
    with Cons.prems show ?thesis
      by (cases ps) auto
  next
    case (Suc j)
    with Cons.prems have "j < length ps" "sorted_wrt (<) ps" "\<forall>p \<in> set ps. p < n"
      by auto
    from Cons.IH [OF this(2,3,1)] Suc \<open>j < length ps\<close> show ?thesis
      by (cases ps) auto
  qed
qed

lemma span_bounds:
  assumes "s \<in> set (splitSections body)"
  shows "startIndex s < endIndex s \<and> endIndex s \<le> length body"
proof -
  let ?ps = "heading_starts body"
  let ?secs = "sections_at body ?ps"
  from assms have "s \<in> set ?secs"
    by (simp add: splitSections_def section_loop_sections_at)
  then obtain k where k: "k < length ?secs" "s = ?secs ! k"
    by (auto simp: in_set_conv_nth)
  have len: "length ?secs = length ?ps"
    using startIndex_sections_at [of body ?ps] by (metis length_map)
  with k have ne: "?ps \<noteq> []" by auto
  have "startIndex s = ?ps ! k"
    using k startIndex_sections_at [of body ?ps] by (metis nth_map)
  moreover have "endIndex s = (tl ?ps @ [length body]) ! k"
    using k endIndex_sections_at [OF ne, of body] by (metis nth_map)
  moreover have "?ps ! k < (tl ?ps @ [length body]) ! k \<and> (tl ?ps @ [length body]) ! k \<le> length body"
    using k len heading_starts_match [of _ body]
    by (intro sorted_wrt_tl_bound heading_starts_sorted) auto
  ultimately show ?thesis by simp
qed

lemma match_section_heading_at:
  assumes "match_section s p = Some (num, ttl, len)"
  shows "heading_at s p num ttl \<and> len = 6 + length num + length ttl"
proof -
  define s0 where "s0 = drop p s"
  define ad where "ad = dropWhile is_digit (drop 4 s0)"
  define rest where "rest = dropWhile (\<lambda>c. \<not> is_line_terminator c) (drop 2 ad)"
  from assms have num: "num = takeWhile is_digit (drop 4 s0)"
    and ttl: "ttl = takeWhile (\<lambda>c. \<not> is_line_terminator c) (drop 2 ad)"
    and len: "len = 4 + length num + 2 + length ttl"
    and pre: "prefix (js ''### '') s0" "prefix (js ''. '') ad"
    and ne: "at_line_start s p" "num \<noteq> []" "ttl \<noteq> []"
    by (auto simp: match_section_def Let_def s0_def ad_def split: if_splits)
  from pre(1) have a: "s0 = js ''### '' @ drop 4 s0"
    by (auto simp: prefix_def)
  have b: "drop 4 s0 = num @ ad"
    by (simp add: num ad_def)
  from pre(2) have c: "ad = js ''. '' @ drop 2 ad"
    by (auto simp: prefix_def)
  have d: "drop 2 ad = ttl @ rest"
    by (simp add: ttl rest_def)
  have whole: "drop p s = js ''### '' @ num @ js ''. '' @ ttl @ rest"
    using a b c d unfolding s0_def by (metis append_assoc)
  have "rest = [] \<or> is_line_terminator (hd rest)"
    unfolding rest_def using hd_dropWhile [of "\<lambda>c. \<not> is_line_terminator c" "drop 2 ad"] by auto
  moreover have "list_all is_digit num"
    unfolding num list_all_iff by (auto dest: set_takeWhileD)
  moreover have "list_all (\<lambda>c. \<not> is_line_terminator c) ttl"
    unfolding ttl list_all_iff by (auto dest: set_takeWhileD)
  ultimately show ?thesis
    using whole ne len unfolding heading_at_def by auto
qed

lemma heading_at_match_section:
  assumes "heading_at s p num ttl"
  shows "match_section s p = Some (num, ttl, 6 + length num + length ttl)"
proof -
  from assms obtain rest where whole: "drop p s = js ''### '' @ num @ js ''. '' @ ttl @ rest"
    and rest: "rest = [] \<or> is_line_terminator (hd rest)"
    and st: "at_line_start s p" and ne: "num \<noteq> []" "ttl \<noteq> []"
    and dg: "list_all is_digit num" and nt: "list_all (\<lambda>c. \<not> is_line_terminator c) ttl"
    unfolding heading_at_def by auto
  let ?tail = "(46 :: unit16) # 32 # ttl @ rest"
  have dot: "\<not> is_digit 46"
    by (simp add: is_digit_def digit_chars_def)
  have "drop 4 (drop p s) = num @ ?tail"
    by (simp only: whole) simp
  then have d4: "drop (4 + p) s = num @ ?tail"
    by simp
  have tk: "takeWhile is_digit (num @ ?tail) = num"
    using dg dot by (simp add: takeWhile_append2 list_all_iff)
  have dr: "dropWhile is_digit (num @ ?tail) = ?tail"
    using dg dot by (simp add: dropWhile_append2 list_all_iff)
  have "takeWhile (\<lambda>c. \<not> is_line_terminator c) rest = []"
    using rest by (cases rest) auto
  then have tt: "takeWhile (\<lambda>c. \<not> is_line_terminator c) (ttl @ rest) = ttl"
    using nt by (simp add: takeWhile_append2 list_all_iff)
  have "prefix (js ''### '') (drop p s)"
    by (simp add: whole)
  then show ?thesis
    using st ne by (simp add: match_section_def Let_def d4 tk dr tt)
qed

lemma match_section_iff:
  "match_section s p = Some (num, ttl, len)
     \<longleftrightarrow> heading_at s p num ttl \<and> len = 6 + length num + length ttl"
  using match_section_heading_at heading_at_match_section by blast

lemma heading_starts_iff:
  "p \<in> set (heading_starts body) \<longleftrightarrow> (\<exists>num ttl. heading_at body p num ttl)"
proof
  assume "p \<in> set (heading_starts body)"
  then obtain num ttl len where "match_section body p = Some (num, ttl, len)"
    by (auto simp: heading_starts_def simp del: upt_Suc)
  then show "\<exists>num ttl. heading_at body p num ttl"
    using match_section_heading_at by blast
next
  assume "\<exists>num ttl. heading_at body p num ttl"
  then obtain num ttl where h: "heading_at body p num ttl" by blast
  then have m: "match_section body p = Some (num, ttl, 6 + length num + length ttl)"
    by (rule heading_at_match_section)
  from match_section_length [OF m] have "p < Suc (length body)" by simp
  with m show "p \<in> set (heading_starts body)"
    by (simp add: heading_starts_def del: upt_Suc)
qed

text \<open>A heading after a line separator (U+2028) starts a line, and its title ends at one.\<close>

lemma heading_after_line_separator:
  "map (\<lambda>s. (number s, title s, startIndex s, endIndex s))
       (splitSections (js ''x'' @ [0x2028] @ js ''### 1. A'' @ [0x2029] @ js ''y''))
     = [(js ''1'', js ''A'', 2, 12)]"
  unfolding splitSections_def by code_simp

text \<open>
  C2, amended. The section splitter returns one section per matching line, in the order of
  the lines: the sections start at the positions where a matching line starts, in ascending
  order, and carry the number and the title of that line; so it returns no section when no
  line matches. Each section ends where the next one starts and the last one ends at the end
  of the body, every span is not empty, and the spans together are the body from the first
  matching heading on. The text before the first matching heading belongs to no section.
\<close>

theorem section_splitter:
  "map startIndex (splitSections body) = heading_starts body
   \<and> length (splitSections body) = length (heading_starts body)
   \<and> set (heading_starts body) = {p. \<exists>num ttl. heading_at body p num ttl}
   \<and> sorted_wrt (<) (heading_starts body)
   \<and> (\<forall>s \<in> set (splitSections body). heading_at body (startIndex s) (number s) (title s))
   \<and> (splitSections body \<noteq> [] \<longrightarrow>
         map endIndex (splitSections body) = tl (heading_starts body) @ [length body])
   \<and> (\<forall>s \<in> set (splitSections body). startIndex s < endIndex s \<and> endIndex s \<le> length body)
   \<and> (splitSections body \<noteq> [] \<longrightarrow>
         concat (spans body (splitSections body)) = drop (hd (heading_starts body)) body)"
proof -
  have eq: "splitSections body = sections_at body (heading_starts body)"
    by (simp add: splitSections_def section_loop_sections_at)
  have st: "map startIndex (splitSections body) = heading_starts body"
    by (simp add: eq startIndex_sections_at)
  then have len: "length (splitSections body) = length (heading_starts body)"
    by (metis length_map)
  from st have ne: "splitSections body \<noteq> [] \<Longrightarrow> heading_starts body \<noteq> []"
    by auto
  have pos: "set (heading_starts body) = {p. \<exists>num ttl. heading_at body p num ttl}"
    using heading_starts_iff [of _ body] by blast
  have "\<forall>s \<in> set (splitSections body).
         \<exists>len. match_section body (startIndex s) = Some (number s, title s, len)"
    unfolding eq using groups_sections_at [of "heading_starts body" body] heading_starts_match [of _ body]
    by blast
  then have grp: "\<forall>s \<in> set (splitSections body).
      heading_at body (startIndex s) (number s) (title s)"
    using match_section_heading_at by blast
  have ends: "splitSections body \<noteq> [] \<longrightarrow>
         map endIndex (splitSections body) = tl (heading_starts body) @ [length body]"
    using ne by (auto simp: eq endIndex_sections_at)
  have cat: "splitSections body \<noteq> [] \<longrightarrow>
         concat (spans body (splitSections body)) = drop (hd (heading_starts body)) body"
  proof
    assume "splitSections body \<noteq> []"
    then have "heading_starts body \<noteq> []" by (rule ne)
    then show "concat (spans body (splitSections body)) = drop (hd (heading_starts body)) body"
      unfolding eq using heading_starts_match [of _ body]
      by (intro spans_sections_at heading_starts_sorted) (auto simp: less_imp_le)
  qed
  have bounds: "\<forall>s \<in> set (splitSections body). startIndex s < endIndex s \<and> endIndex s \<le> length body"
    using span_bounds [of _ body] by blast
  from st len pos heading_starts_sorted [of body] grp ends bounds cat show ?thesis
    by (intro conjI)
qed

lemma demo_body_sections:
  "splitSections demo_body =
     [\<lparr>title = js ''Alpha'', anchor = js ''alpha'', number = js ''1'', startIndex = 6, endIndex = 24, rules = []\<rparr>,
      \<lparr>title = js ''Beta'', anchor = js ''beta'', number = js ''22'', startIndex = 24, endIndex = 41, rules = []\<rparr>]"
  unfolding splitSections_def demo_body_def by code_simp

theorem section_splitter_witness:
  "heading_starts demo_body = [6, 24]
   \<and> map endIndex (splitSections demo_body) = [24, 41]
   \<and> concat (spans demo_body (splitSections demo_body)) = drop 6 demo_body"
proof -
  have ne: "splitSections demo_body \<noteq> []"
    by (simp add: demo_body_sections)
  have len: "length demo_body = 41"
    by (simp add: demo_body_def)
  note split = section_splitter [of demo_body]
  from split [THEN conjunct1, symmetric] have h: "heading_starts demo_body = [6, 24]"
    by (simp add: demo_body_sections)
  from split ne have "concat (spans demo_body (splitSections demo_body))
      = drop (hd (heading_starts demo_body)) demo_body"
    by blast
  with h show ?thesis
    by (simp add: demo_body_sections)
qed

text \<open>
  C2 as stated fails on a body with text before its first heading: the only section starts
  at position 6, and the spans do not make up the body.
\<close>

theorem section_splitter_counterexample:
  "splitSections (js ''intro\<newline>### 1. A'')
     = [\<lparr>title = js ''A'', anchor = js ''a'', number = js ''1'', startIndex = 6, endIndex = 14, rules = []\<rparr>]
   \<and> concat (spans (js ''intro\<newline>### 1. A'') (splitSections (js ''intro\<newline>### 1. A''))) = js ''### 1. A''
   \<and> concat (spans (js ''intro\<newline>### 1. A'') (splitSections (js ''intro\<newline>### 1. A''))) \<noteq> js ''intro\<newline>### 1. A''"
proof -
  have s: "splitSections (js ''intro\<newline>### 1. A'')
     = [\<lparr>title = js ''A'', anchor = js ''a'', number = js ''1'', startIndex = 6, endIndex = 14, rules = []\<rparr>]"
    unfolding splitSections_def by code_simp
  then show ?thesis
    by (simp add: spans_def slice_def)
qed

section \<open>Verification: document composer\<close>

lemma render_rule_readable:
  "rule_dir (rule_file r) \<noteq> Some Directory \<Longrightarrow>
     render_rule rule_dir sec r j st
       = Inr \<lparr>output_text = output_text st @ rule_heading sec r j @ rule_body rule_dir r,
              console = console st @ rule_log rule_dir r,
              processedRules = processedRules st + found_rules rule_dir [r]\<rparr>"
  by (cases "rule_dir (rule_file r)")
    (auto simp: render_rule_def readRuleFile_def rule_body_def rule_log_def found_rules_def
      split: node.splits)

lemma render_rule_directory:
  "rule_dir (rule_file r) = Some Directory \<Longrightarrow>
     render_rule rule_dir sec r j st = Inl (EISDIR, console st @ [processing_line r])"
  by (simp add: render_rule_def readRuleFile_def)

lemma render_rules_readable:
  "readable rule_dir rs \<Longrightarrow>
     forEachE (render_rule rule_dir sec) rs i st
       = Inr \<lparr>output_text = output_text st @ rules_text rule_dir sec i rs,
              console = console st @ concat (map (rule_log rule_dir) rs),
              processedRules = processedRules st + found_rules rule_dir rs\<rparr>"
proof (induction rs arbitrary: i st)
  case Nil
  then show ?case by (simp add: rules_text_def found_rules_def)
next
  case (Cons r rs)
  then have r: "rule_dir (rule_file r) \<noteq> Some Directory" and rs: "readable rule_dir rs"
    by (simp_all add: readable_def)
  show ?case
    using r by (simp add: render_rule_readable Cons.IH [OF rs] rules_text_def found_rules_def)
qed

lemma render_rules_Inr:
  "forEachE (render_rule rule_dir sec) rs i st = Inr st' \<Longrightarrow> readable rule_dir rs"
proof (induction rs arbitrary: i st)
  case Nil
  then show ?case by (simp add: readable_def)
next
  case (Cons r rs)
  show ?case
  proof (cases "rule_dir (rule_file r) = Some Directory")
    case True
    with Cons.prems show ?thesis by (simp add: render_rule_directory)
  next
    case False
    with Cons.prems Cons.IH show ?thesis
      by (auto simp: render_rule_readable readable_def)
  qed
qed

lemma render_section_readable:
  "readable rule_dir (rules sec) \<Longrightarrow>
     render_section rule_dir sec i st
       = Inr \<lparr>output_text = output_text st @ section_text rule_dir sec,
              console = console st @ concat (map (rule_log rule_dir) (rules sec)),
              processedRules = processedRules st + found_rules rule_dir (rules sec)\<rparr>"
  by (simp add: render_section_def render_rules_readable section_text_def)

lemma render_section_Inr:
  "render_section rule_dir sec i st = Inr st' \<Longrightarrow> readable rule_dir (rules sec)"
  unfolding render_section_def by (rule render_rules_Inr)

lemma render_sections_readable:
  "list_all (\<lambda>sec. readable rule_dir (rules sec)) secs \<Longrightarrow>
     forEachE (render_section rule_dir) secs i st
       = Inr \<lparr>output_text = output_text st @ concat (map (section_text rule_dir) secs),
              console = console st @ concat (map (\<lambda>sec. concat (map (rule_log rule_dir) (rules sec))) secs),
              processedRules = processedRules st
                + sum_list (map (\<lambda>sec. found_rules rule_dir (rules sec)) secs)\<rparr>"
proof (induction secs arbitrary: i st)
  case Nil
  then show ?case by simp
next
  case (Cons sec secs)
  then have a: "readable rule_dir (rules sec)"
    and b: "list_all (\<lambda>sec. readable rule_dir (rules sec)) secs"
    by simp_all
  show ?case
    using a by (simp add: render_section_readable Cons.IH [OF b])
qed

lemma render_sections_Inr:
  "forEachE (render_section rule_dir) secs i st = Inr st' \<Longrightarrow>
     list_all (\<lambda>sec. readable rule_dir (rules sec)) secs"
proof (induction secs arbitrary: i st)
  case Nil
  then show ?case by simp
next
  case (Cons sec secs)
  from Cons.prems obtain st1 where s1: "render_section rule_dir sec i st = Inr st1"
    and s2: "forEachE (render_section rule_dir) secs (Suc i) st1 = Inr st'"
    by (auto split: sum.splits)
  from render_section_Inr [OF s1] Cons.IH [OF s2] show ?case by simp
qed

lemma render_sections_output:
  assumes "forEachE (render_section rule_dir) secs i st = Inr st'"
  shows "output_text st' = output_text st @ concat (map (section_text rule_dir) secs)"
  using assms render_sections_readable [OF render_sections_Inr [OF assms], of i st] by auto

lemma forEach_append:
  assumes "\<And>x j acc. f x j acc = acc @ g j x"
  shows "forEach f xs i acc = acc @ concat (map (\<lambda>(j, x). g j x) (enumerate i xs))"
  by (induction xs arbitrary: i acc) (simp_all add: assms)

lemma toc_section_entry_text: "toc_section_entry sec i toc = toc @ toc_section_text i sec"
proof -
  have "\<And>r j acc. toc_rule_entry (i + 1) r j acc = acc @ toc_rule_line (i + 1) j r"
    by (simp add: toc_rule_entry_def toc_rule_line_def)
  from forEach_append [of "toc_rule_entry (i + 1)" "toc_rule_line (i + 1)", OF this]
  show ?thesis
    by (simp add: toc_section_entry_def toc_section_text_def Let_def)
qed

lemma generateTOC_text:
  "generateTOC secs
     = js ''## Table of Contents'' @ [LF, LF]
       @ concat (map (\<lambda>(i, sec). toc_section_text i sec) (enumerate 0 secs))"
  using forEach_append [of toc_section_entry toc_section_text secs 0
      "js ''## Table of Contents'' @ [LF, LF]"]
  by (simp add: generateTOC_def toc_section_entry_text)

lemma io_error_eq: "(e :: io_error) = EISDIR"
  by (cases e) simp

lemma build_completion:
  "snd (buildAgentsMd fs now) =
     (case skill_file fs of
        None \<Rightarrow> Exit 1
      | Some Directory \<Rightarrow> Throw EISDIR
      | Some (File skillContent) \<Rightarrow>
          (if all_readable fs skillContent then Written (composed fs skillContent now)
           else Throw EISDIR))"
proof (cases "skill_file fs")
  case None
  then show ?thesis by (simp add: buildAgentsMd_def)
next
  case (Some n)
  show ?thesis
  proof (cases n)
    case Directory
    with Some show ?thesis by (simp add: buildAgentsMd_def)
  next
    case (File skillContent)
    show ?thesis
    proof (cases "all_readable fs skillContent")
      case True
      then have "list_all (\<lambda>sec. readable (rule_files fs) (rules sec))
          (extractSections (content (parseFrontmatter skillContent)))"
        by (simp add: all_readable_def skill_sections_def)
      from render_sections_readable [OF this] Some File True show ?thesis
        by (simp add: buildAgentsMd_def Let_def composed_def skill_sections_def)
    next
      case False
      with Some File show ?thesis
        using io_error_eq
        by (auto simp: buildAgentsMd_def Let_def all_readable_def skill_sections_def
            split: sum.splits dest: render_sections_Inr)
    qed
  qed
qed

lemma build_console:
  assumes "skill_file fs = Some (File skillContent)" and "all_readable fs skillContent"
  shows "fst (buildAgentsMd fs now)
     = found_console (skill_sections skillContent)
       @ concat (map (\<lambda>sec. concat (map (rule_log (rule_files fs)) (rules sec)))
           (skill_sections skillContent))
       @ finished_console (output_path fs) (length (skill_sections skillContent))
           (sum_list (map (\<lambda>sec. found_rules (rule_files fs) (rules sec))
              (skill_sections skillContent)))
           (composed fs skillContent now)"
proof -
  from assms(2) have "list_all (\<lambda>sec. readable (rule_files fs) (rules sec))
      (extractSections (content (parseFrontmatter skillContent)))"
    by (simp add: all_readable_def skill_sections_def)
  from render_sections_readable [OF this] assms(1) show ?thesis
    by (simp add: buildAgentsMd_def Let_def composed_def skill_sections_def)
qed

lemma run_build_exit:
  "exit_code (run_build fs now)
     = (case snd (buildAgentsMd fs now) of Exit code \<Rightarrow> code | Throw e \<Rightarrow> 1 | Written out \<Rightarrow> 0)"
  and run_build_written:
  "written (run_build fs now)
     = (case snd (buildAgentsMd fs now) of Exit code \<Rightarrow> None | Throw e \<Rightarrow> None
        | Written out \<Rightarrow> Some out)"
  and run_build_stdout:
  "snd (buildAgentsMd fs now) = Written out \<Longrightarrow> stdout (run_build fs now) = fst (buildAgentsMd fs now)"
  by (auto simp: run_build_def split: prod.splits completion.splits)

lemma generateTOC_renumber:
  "generateTOC (map (\<lambda>sec. sec\<lparr>number := f sec\<rparr>) secs) = generateTOC secs"
proof -
  have "\<And>i acc. forEach toc_section_entry (map (\<lambda>sec. sec\<lparr>number := f sec\<rparr>) secs) i acc
      = forEach toc_section_entry secs i acc"
  proof (induction secs)
    case Nil
    show ?case by simp
  next
    case (Cons sec secs)
    have "toc_section_entry (sec\<lparr>number := f sec\<rparr>) i acc = toc_section_entry sec i acc"
      by (simp add: toc_section_entry_def)
    with Cons show ?case by simp
  qed
  then show ?thesis
    by (simp add: generateTOC_def)
qed

text \<open>
  C1, amended. In the table of contents the numbers are positions: the entry of the section at
  index \<open>i\<close> starts with \<open>i + 1\<close> and the entry of its rule at index \<open>j\<close> with \<open>i + 1\<close>
  and \<open>j + 1\<close>, whatever numbers the source headings carry. In the body the section number is the one written in the source heading:
  the section heading line and every rule heading line of a section carry \<open>number sec\<close>, the
  captured text, and only the rule's number \<open>j + 1\<close> is a position.
\<close>

theorem numbering:
  "generateTOC secs
     = js ''## Table of Contents'' @ [LF, LF]
       @ concat (map (\<lambda>(i, sec).
           string_of_nat (i + 1) @ js ''. ['' @ title sec @ js ''](#'' @ anchor sec @ js '')'' @ [LF]
             @ concat (map (\<lambda>(j, r).
                 (js ''   '') @ string_of_nat (i + 1) @ js ''.'' @ string_of_nat (j + 1)
                   @ js ''. ['' @ title r @ js ''](#'' @ anchor r @ js '')'' @ [LF])
                 (enumerate 0 (rules sec)))
             @ [LF])
           (enumerate 0 secs))
   \<and> generateTOC (map (\<lambda>sec. sec\<lparr>number := f sec\<rparr>) secs) = generateTOC secs
   \<and> (forEachE (render_section rule_dir) secs 0 st = Inr st' \<longrightarrow>
        output_text st'
          = output_text st
            @ concat (map (\<lambda>sec.
                (js ''## '') @ number sec @ js ''. '' @ title sec @ [LF, LF] @ anchor_marker (anchor sec)
                  @ concat (map (\<lambda>(j, r).
                      (js ''### '') @ number sec @ js ''.'' @ string_of_nat (j + 1) @ js ''. '' @ title r
                        @ [LF, LF] @ rule_body rule_dir r)
                      (enumerate 0 (rules sec))))
                secs))"
proof (intro conjI)
  show "generateTOC (map (\<lambda>sec. sec\<lparr>number := f sec\<rparr>) secs) = generateTOC secs"
    by (rule generateTOC_renumber)
  show "generateTOC secs
     = js ''## Table of Contents'' @ [LF, LF]
       @ concat (map (\<lambda>(i, sec).
           string_of_nat (i + 1) @ js ''. ['' @ title sec @ js ''](#'' @ anchor sec @ js '')'' @ [LF]
             @ concat (map (\<lambda>(j, r).
                 (js ''   '') @ string_of_nat (i + 1) @ js ''.'' @ string_of_nat (j + 1)
                   @ js ''. ['' @ title r @ js ''](#'' @ anchor r @ js '')'' @ [LF])
                 (enumerate 0 (rules sec)))
             @ [LF])
           (enumerate 0 secs))"
    by (simp add: generateTOC_text toc_section_text_def toc_rule_line_def)
  show "forEachE (render_section rule_dir) secs 0 st = Inr st' \<longrightarrow>
        output_text st'
          = output_text st
            @ concat (map (\<lambda>sec.
                (js ''## '') @ number sec @ js ''. '' @ title sec @ [LF, LF] @ anchor_marker (anchor sec)
                  @ concat (map (\<lambda>(j, r).
                      (js ''### '') @ number sec @ js ''.'' @ string_of_nat (j + 1) @ js ''. '' @ title r
                        @ [LF, LF] @ rule_body rule_dir r)
                      (enumerate 0 (rules sec))))
                secs)"
  proof
    assume "forEachE (render_section rule_dir) secs 0 st = Inr st'"
    then have "output_text st' = output_text st @ concat (map (section_text rule_dir) secs)"
      by (rule render_sections_output)
    moreover have "section_text rule_dir
        = (\<lambda>sec. (js ''## '') @ number sec @ js ''. '' @ title sec @ [LF, LF] @ anchor_marker (anchor sec)
                  @ concat (map (\<lambda>(j, r).
                      (js ''### '') @ number sec @ js ''.'' @ string_of_nat (j + 1) @ js ''. '' @ title r
                        @ [LF, LF] @ rule_body rule_dir r)
                      (enumerate 0 (rules sec))))"
      by (rule ext)
        (simp add: section_text_def rules_text_def section_heading_def rule_heading_def)
    ultimately show "output_text st'
          = output_text st
            @ concat (map (\<lambda>sec.
                (js ''## '') @ number sec @ js ''. '' @ title sec @ [LF, LF] @ anchor_marker (anchor sec)
                  @ concat (map (\<lambda>(j, r).
                      (js ''### '') @ number sec @ js ''.'' @ string_of_nat (j + 1) @ js ''. '' @ title r
                        @ [LF, LF] @ rule_body rule_dir r)
                      (enumerate 0 (rules sec))))
                secs)"
      by simp
  qed
qed

lemma two_sections_eq:
  "two_sections =
     [\<lparr>title = js ''Foo'', anchor = js ''foo'', number = js ''5'', startIndex = 0, endIndex = 27,
       rules = [\<lparr>title = js ''R'', anchor = js ''r'', rule_file = js ''r.md''\<rparr>]\<rparr>,
      \<lparr>title = js ''Bar'', anchor = js ''bar'', number = js ''2'', startIndex = 27, endIndex = 38,
       rules = []\<rparr>]"
  unfolding two_sections_def extractSections_def splitSections_def by code_simp

theorem numbering_witness:
  "generateTOC two_sections = js ''## Table of Contents\<newline>\<newline>1. [Foo](#foo)\<newline>   1.1. [R](#r)\<newline>\<newline>2. [Bar](#bar)\<newline>\<newline>''
   \<and> (\<exists>st'. forEachE (render_section Map.empty) two_sections 0 empty_state = Inr st'
          \<and> output_text st' = js ''## 5. Foo\<newline>\<newline><a name='' @ [DQ] @ js ''foo'' @ [DQ] @ js ''></a>\<newline>\<newline>### 5.1. R\<newline>\<newline>_Rule file not found: r.md_\<newline>\<newline>## 2. Bar\<newline>\<newline><a name='' @ [DQ] @ js ''bar'' @ [DQ] @ js ''></a>\<newline>\<newline>'')"
proof -
  have rd: "list_all (\<lambda>sec. readable Map.empty (rules sec)) two_sections"
    by (simp add: two_sections_eq readable_def)
  let ?st = "\<lparr>output_text = output_text empty_state @ concat (map (section_text Map.empty) two_sections),
              console = console empty_state
                @ concat (map (\<lambda>sec. concat (map (rule_log Map.empty) (rules sec))) two_sections),
              processedRules = processedRules empty_state
                + sum_list (map (\<lambda>sec. found_rules Map.empty (rules sec)) two_sections)\<rparr>"
  have run: "forEachE (render_section Map.empty) two_sections 0 empty_state = Inr ?st"
    by (rule render_sections_readable [OF rd])
  note n = numbering [of two_sections number Map.empty empty_state ?st]
  from n [THEN conjunct1] have "generateTOC two_sections = js ''## Table of Contents\<newline>\<newline>1. [Foo](#foo)\<newline>   1.1. [R](#r)\<newline>\<newline>2. [Bar](#bar)\<newline>\<newline>''"
    by (simp add: two_sections_eq enumerate_simps string_of_nat.simps digit_chars_def LF_def)
  moreover from n [THEN conjunct2, THEN conjunct2] run have "output_text ?st = js ''## 5. Foo\<newline>\<newline><a name='' @ [DQ] @ js ''foo'' @ [DQ] @ js ''></a>\<newline>\<newline>### 5.1. R\<newline>\<newline>_Rule file not found: r.md_\<newline>\<newline>## 2. Bar\<newline>\<newline><a name='' @ [DQ] @ js ''bar'' @ [DQ] @ js ''></a>\<newline>\<newline>''"
    by (simp add: two_sections_eq empty_state_def rule_body_def not_found_notice_def
        anchor_marker_def string_of_nat.simps digit_chars_def LF_def)
  ultimately show ?thesis
    using run by blast
qed

lemma sections_renumbered:
  "skill_sections (js ''### 5. Foo'')
     = [\<lparr>title = js ''Foo'', anchor = js ''foo'', number = js ''5'', startIndex = 0, endIndex = 10,
         rules = []\<rparr>]"
  unfolding skill_sections_def extractSections_def splitSections_def by code_simp

lemma composed_renumbered:
  "composed renumbered (js ''### 5. Foo'') build_time = js ''---\<newline>---\<newline>\<newline># Composio Agent Skills\<newline>\<newline>\<newline>\<newline>## Table of Contents\<newline>\<newline>1. [Foo](#foo)\<newline>\<newline>---\<newline>\<newline>## 5. Foo\<newline>\<newline><a name='' @ [DQ] @ js ''foo'' @ [DQ] @ js ''></a>\<newline>\<newline>\<newline>---\<newline>\<newline>_This file was automatically generated from individual rule files on 2026-01-01T00:00:00.000Z_\<newline>_To update, run: `npm run build:agents`_\<newline>''"
  unfolding composed_def renumbered_def build_time_def sections_renumbered by code_simp

text \<open>
  C1 as stated fails on a source document whose only heading is \<^verbatim>\<open>### 5. Foo\<close>: the table of
  contents numbers the section 1, its position, and the section heading line numbers it 5.
\<close>

theorem numbering_counterexample:
  "written (run_build renumbered build_time) = Some (js ''---\<newline>---\<newline>\<newline># Composio Agent Skills\<newline>\<newline>\<newline>\<newline>## Table of Contents\<newline>\<newline>1. [Foo](#foo)\<newline>\<newline>---\<newline>\<newline>## 5. Foo\<newline>\<newline><a name='' @ [DQ] @ js ''foo'' @ [DQ] @ js ''></a>\<newline>\<newline>\<newline>---\<newline>\<newline>_This file was automatically generated from individual rule files on 2026-01-01T00:00:00.000Z_\<newline>_To update, run: `npm run build:agents`_\<newline>'')
   \<and> map number (skill_sections (js ''### 5. Foo'')) = [js ''5'']
   \<and> string_of_nat (0 + 1) = js ''1''"
proof -
  have "all_readable renumbered (js ''### 5. Foo'')"
    unfolding all_readable_def sections_renumbered by (simp add: readable_def)
  then have "written (run_build renumbered build_time)
      = Some (composed renumbered (js ''### 5. Foo'') build_time)"
    by (simp add: run_build_written build_completion renumbered_def)
  then show ?thesis
    using composed_renumbered sections_renumbered
    by (simp add: string_of_nat.simps digit_chars_def)
qed

lemma rules_text_split:
  assumes "k < length rs"
  shows "rules_text rule_dir sec i rs
     = rules_text rule_dir sec i (take k rs)
       @ rule_heading sec (rs ! k) (i + k) @ rule_body rule_dir (rs ! k)
       @ rules_text rule_dir sec (Suc (i + k)) (drop (Suc k) rs)"
proof -
  have "rs = take k rs @ rs ! k # drop (Suc k) rs"
    using assms by (rule id_take_nth_drop)
  then have "enumerate i rs
      = enumerate i (take k rs) @ (i + k, rs ! k) # enumerate (Suc (i + k)) (drop (Suc k) rs)"
    using assms by (metis add_Suc_right enumerate_append_eq enumerate_simps(2) length_take min.absorb2 less_imp_le)
  then show ?thesis
    by (simp add: rules_text_def)
qed

text \<open>
  C3, amended. In the text of a section's rules, a rule whose file is missing contributes its
  heading and then at once the notice, without an anchor marker and without a separator: the
  next rule's heading follows the notice. A rule whose file is found contributes its heading,
  its anchor marker, the optional badge and description, the content and the separator.
\<close>

theorem missing_rule_rendering:
  assumes "forEachE (render_rule rule_dir sec) rs 0 st = Inr st'" and "k < length rs"
  shows "(rule_dir (rule_file (rs ! k)) = None \<longrightarrow>
            output_text st'
              = output_text st @ rules_text rule_dir sec 0 (take k rs)
                @ js ''### '' @ number sec @ js ''.'' @ string_of_nat (k + 1) @ js ''. '' @ title (rs ! k)
                @ [LF, LF]
                @ js ''_Rule file not found: '' @ rule_file (rs ! k) @ js ''_'' @ [LF, LF]
                @ rules_text rule_dir sec (Suc k) (drop (Suc k) rs))
       \<and> (\<forall>text. rule_dir (rule_file (rs ! k)) = Some (File text) \<longrightarrow>
            output_text st'
              = output_text st @ rules_text rule_dir sec 0 (take k rs)
                @ js ''### '' @ number sec @ js ''.'' @ string_of_nat (k + 1) @ js ''. '' @ title (rs ! k)
                @ [LF, LF]
                @ anchor_marker (anchor (rs ! k))
                @ impact_badge (frontmatter (parseFrontmatter text))
                @ description_quote (frontmatter (parseFrontmatter text))
                @ trim (content (parseFrontmatter text)) @ [LF, LF]
                @ js ''---'' @ [LF, LF]
                @ rules_text rule_dir sec (Suc k) (drop (Suc k) rs))"
proof -
  from render_rules_readable [OF render_rules_Inr [OF assms(1)], of sec 0 st] assms(1)
  have "output_text st' = output_text st @ rules_text rule_dir sec 0 rs"
    by auto
  with rules_text_split [OF assms(2), of rule_dir sec 0] show ?thesis
    by (simp add: rule_heading_def rule_body_def not_found_notice_def rule_separator_def)
qed

lemma mixed_section_eq:
  "mixed_section =
     \<lparr>title = js ''Example'', anchor = js ''example'', number = js ''1'', startIndex = 0, endIndex = 67,
      rules = [\<lparr>title = js ''My Rule'', anchor = js ''my-rule'', rule_file = js ''my-rule.md''\<rparr>,
               \<lparr>title = js ''Other'', anchor = js ''other'', rule_file = js ''other.md''\<rparr>]\<rparr>"
  unfolding mixed_section_def extractSections_def splitSections_def by code_simp

lemma mixed_other_text:
  "rules_text mixed_dir mixed_section 1 [\<lparr>title = js ''Other'', anchor = js ''other'', rule_file = js ''other.md''\<rparr>]
     = js ''### 1.2. Other\<newline>\<newline><a name='' @ [DQ] @ js ''other'' @ [DQ] @ js ''></a>\<newline>\<newline>**Impact:** '' @ sym_orange @ js '' HIGH\<newline>\<newline>> test\<newline>\<newline>Hello world.\<newline>\<newline>---\<newline>\<newline>''"
  unfolding mixed_section_eq mixed_dir_def rules_text_def rule_heading_def rule_body_def by code_simp

theorem missing_rule_rendering_witness:
  "\<exists>st'. forEachE (render_rule mixed_dir mixed_section) (rules mixed_section) 0 empty_state = Inr st'
      \<and> output_text st' = js ''### 1.1. My Rule\<newline>\<newline>_Rule file not found: my-rule.md_\<newline>\<newline>### 1.2. Other\<newline>\<newline><a name='' @ [DQ] @ js ''other'' @ [DQ] @ js ''></a>\<newline>\<newline>**Impact:** '' @ sym_orange @ js '' HIGH\<newline>\<newline>> test\<newline>\<newline>Hello world.\<newline>\<newline>---\<newline>\<newline>''"
proof -
  let ?rs = "rules mixed_section"
  have rd: "readable mixed_dir ?rs"
    by (simp add: mixed_section_eq readable_def mixed_dir_def)
  from render_rules_readable [OF rd, of mixed_section 0 empty_state]
  obtain st' where run: "forEachE (render_rule mixed_dir mixed_section) ?rs 0 empty_state = Inr st'"
    by blast
  have k: "0 < length ?rs"
    by (simp add: mixed_section_eq)
  have none: "mixed_dir (rule_file (?rs ! 0)) = None"
    by (simp add: mixed_section_eq mixed_dir_def)
  from missing_rule_rendering [OF run k] none
  have "output_text st'
      = output_text empty_state @ rules_text mixed_dir mixed_section 0 (take 0 ?rs)
        @ js ''### '' @ number mixed_section @ js ''.'' @ string_of_nat (0 + 1) @ js ''. '' @ title (?rs ! 0)
        @ [LF, LF]
        @ js ''_Rule file not found: '' @ rule_file (?rs ! 0) @ js ''_'' @ [LF, LF]
        @ rules_text mixed_dir mixed_section (Suc 0) (drop (Suc 0) ?rs)"
    by blast
  also have "\<dots> = js ''### 1.1. My Rule\<newline>\<newline>_Rule file not found: my-rule.md_\<newline>\<newline>### 1.2. Other\<newline>\<newline><a name='' @ [DQ] @ js ''other'' @ [DQ] @ js ''></a>\<newline>\<newline>**Impact:** '' @ sym_orange @ js '' HIGH\<newline>\<newline>> test\<newline>\<newline>Hello world.\<newline>\<newline>---\<newline>\<newline>''"
    using mixed_other_text
    by (simp add: mixed_section_eq empty_state_def rules_text_def string_of_nat.simps
        digit_chars_def LF_def)
  finally show ?thesis
    using run by blast
qed

lemma sections_scenario:
  "skill_sections scenario_skill
     = [\<lparr>title = js ''Example'', anchor = js ''example'', number = js ''1'', startIndex = 0, endIndex = 43,
         rules = [\<lparr>title = js ''My Rule'', anchor = js ''my-rule'', rule_file = js ''my-rule.md''\<rparr>]\<rparr>]"
  unfolding skill_sections_def scenario_skill_def extractSections_def splitSections_def by code_simp

lemma composed_scenario_missing:
  "composed scenario_missing scenario_skill build_time = js ''---\<newline>---\<newline>\<newline># Composio Agent Skills\<newline>\<newline>\<newline>\<newline>## Table of Contents\<newline>\<newline>1. [Example](#example)\<newline>   1.1. [My Rule](#my-rule)\<newline>\<newline>---\<newline>\<newline>## 1. Example\<newline>\<newline><a name='' @ [DQ] @ js ''example'' @ [DQ] @ js ''></a>\<newline>\<newline>### 1.1. My Rule\<newline>\<newline>_Rule file not found: my-rule.md_\<newline>\<newline>\<newline>---\<newline>\<newline>_This file was automatically generated from individual rule files on 2026-01-01T00:00:00.000Z_\<newline>_To update, run: `npm run build:agents`_\<newline>''"
  unfolding composed_def sections_scenario unfolding scenario_skill_def scenario_missing_def build_time_def
  by code_simp

lemma scenario_missing_readable: "all_readable scenario_missing scenario_skill"
  by (simp add: all_readable_def sections_scenario readable_def scenario_missing_def)

lemma scenario_missing_written:
  "written (run_build scenario_missing build_time) = Some (js ''---\<newline>---\<newline>\<newline># Composio Agent Skills\<newline>\<newline>\<newline>\<newline>## Table of Contents\<newline>\<newline>1. [Example](#example)\<newline>   1.1. [My Rule](#my-rule)\<newline>\<newline>---\<newline>\<newline>## 1. Example\<newline>\<newline><a name='' @ [DQ] @ js ''example'' @ [DQ] @ js ''></a>\<newline>\<newline>### 1.1. My Rule\<newline>\<newline>_Rule file not found: my-rule.md_\<newline>\<newline>\<newline>---\<newline>\<newline>_This file was automatically generated from individual rule files on 2026-01-01T00:00:00.000Z_\<newline>_To update, run: `npm run build:agents`_\<newline>'')"
proof -
  have "skill_file scenario_missing = Some (File scenario_skill)"
    by (simp add: scenario_missing_def)
  with scenario_missing_readable show ?thesis
    by (simp add: run_build_written build_completion composed_scenario_missing)
qed

text \<open>
  C3 as stated fails on the scenario with the rule file deleted: the output has no anchor
  marker for the rule.
\<close>

theorem missing_rule_rendering_counterexample:
  "written (run_build scenario_missing build_time) = Some (js ''---\<newline>---\<newline>\<newline># Composio Agent Skills\<newline>\<newline>\<newline>\<newline>## Table of Contents\<newline>\<newline>1. [Example](#example)\<newline>   1.1. [My Rule](#my-rule)\<newline>\<newline>---\<newline>\<newline>## 1. Example\<newline>\<newline><a name='' @ [DQ] @ js ''example'' @ [DQ] @ js ''></a>\<newline>\<newline>### 1.1. My Rule\<newline>\<newline>_Rule file not found: my-rule.md_\<newline>\<newline>\<newline>---\<newline>\<newline>_This file was automatically generated from individual rule files on 2026-01-01T00:00:00.000Z_\<newline>_To update, run: `npm run build:agents`_\<newline>'')
   \<and> \<not> sublist (js ''<a name='' @ [DQ] @ js ''my-rule'' @ [DQ] @ js ''></a>'') (js ''---\<newline>---\<newline>\<newline># Composio Agent Skills\<newline>\<newline>\<newline>\<newline>## Table of Contents\<newline>\<newline>1. [Example](#example)\<newline>   1.1. [My Rule](#my-rule)\<newline>\<newline>---\<newline>\<newline>## 1. Example\<newline>\<newline><a name='' @ [DQ] @ js ''example'' @ [DQ] @ js ''></a>\<newline>\<newline>### 1.1. My Rule\<newline>\<newline>_Rule file not found: my-rule.md_\<newline>\<newline>\<newline>---\<newline>\<newline>_This file was automatically generated from individual rule files on 2026-01-01T00:00:00.000Z_\<newline>_To update, run: `npm run build:agents`_\<newline>'')"
proof -
  have "\<not> sublist (js ''<a name='' @ [DQ] @ js ''my-rule'' @ [DQ] @ js ''></a>'') (js ''---\<newline>---\<newline>\<newline># Composio Agent Skills\<newline>\<newline>\<newline>\<newline>## Table of Contents\<newline>\<newline>1. [Example](#example)\<newline>   1.1. [My Rule](#my-rule)\<newline>\<newline>---\<newline>\<newline>## 1. Example\<newline>\<newline><a name='' @ [DQ] @ js ''example'' @ [DQ] @ js ''></a>\<newline>\<newline>### 1.1. My Rule\<newline>\<newline>_Rule file not found: my-rule.md_\<newline>\<newline>\<newline>---\<newline>\<newline>_This file was automatically generated from individual rule files on 2026-01-01T00:00:00.000Z_\<newline>_To update, run: `npm run build:agents`_\<newline>'')"
    by code_simp
  with scenario_missing_written show ?thesis by simp
qed

lemma warning_in_console:
  assumes "sec \<in> set secs" and "r \<in> set (rules sec)" and "rule_dir (rule_file r) = None"
  shows "warning_line (rule_file r)
     \<in> set (concat (map (\<lambda>sec. concat (map (rule_log rule_dir) (rules sec))) secs))"
  using assms by (auto simp: rule_log_def intro!: bexI [of _ sec] bexI [of _ r])

text \<open>
  C4. For an absent rule file \<^verbatim>\<open>readRuleFile\<close> returns \<^verbatim>\<open>null\<close> after a warning and throws
  nothing. The build exits with a status other than 0 exactly when the source document is
  absent or an error is thrown, and an error is thrown exactly when the source document or a
  referenced rule is a directory. Otherwise, whatever rule files are absent, the build exits
  with 0, writes the whole composed text, with every section and every rule in it, and has
  printed the warning for every absent rule.
\<close>

theorem missing_rule_not_fatal:
  "(rule_files fs p = None \<longrightarrow>
      readRuleFile (rule_files fs) p con = Inr (None, con @ [warning_line p]))
   \<and> (exit_code (run_build fs now) \<noteq> 0
        \<longleftrightarrow> skill_file fs = None \<or> (\<exists>e. snd (buildAgentsMd fs now) = Throw e))
   \<and> ((\<exists>e. snd (buildAgentsMd fs now) = Throw e)
        \<longleftrightarrow> skill_file fs = Some Directory
            \<or> (\<exists>text. skill_file fs = Some (File text) \<and> \<not> all_readable fs text))
   \<and> (skill_file fs = Some (File skillContent) \<and> all_readable fs skillContent \<longrightarrow>
        exit_code (run_build fs now) = 0
        \<and> written (run_build fs now) = Some (composed fs skillContent now)
        \<and> (\<forall>sec \<in> set (skill_sections skillContent). \<forall>r \<in> set (rules sec).
              rule_files fs (rule_file r) = None \<longrightarrow>
                warning_line (rule_file r) \<in> set (stdout (run_build fs now))))"
proof (intro conjI)
  show "rule_files fs p = None \<longrightarrow>
      readRuleFile (rule_files fs) p con = Inr (None, con @ [warning_line p])"
    by (simp add: readRuleFile_def)
  show "exit_code (run_build fs now) \<noteq> 0
        \<longleftrightarrow> skill_file fs = None \<or> (\<exists>e. snd (buildAgentsMd fs now) = Throw e)"
    by (auto simp: run_build_exit build_completion split: option.splits node.splits)
  show "(\<exists>e. snd (buildAgentsMd fs now) = Throw e)
        \<longleftrightarrow> skill_file fs = Some Directory
            \<or> (\<exists>text. skill_file fs = Some (File text) \<and> \<not> all_readable fs text)"
    by (auto simp: build_completion split: option.splits node.splits if_splits)
  show "skill_file fs = Some (File skillContent) \<and> all_readable fs skillContent \<longrightarrow>
        exit_code (run_build fs now) = 0
        \<and> written (run_build fs now) = Some (composed fs skillContent now)
        \<and> (\<forall>sec \<in> set (skill_sections skillContent). \<forall>r \<in> set (rules sec).
              rule_files fs (rule_file r) = None \<longrightarrow>
                warning_line (rule_file r) \<in> set (stdout (run_build fs now)))"
  proof
    assume a: "skill_file fs = Some (File skillContent) \<and> all_readable fs skillContent"
    then have w: "snd (buildAgentsMd fs now) = Written (composed fs skillContent now)"
      by (simp add: build_completion)
    have out: "stdout (run_build fs now) = fst (buildAgentsMd fs now)"
      by (rule run_build_stdout [OF w])
    have "\<forall>sec \<in> set (skill_sections skillContent). \<forall>r \<in> set (rules sec).
              rule_files fs (rule_file r) = None \<longrightarrow>
                warning_line (rule_file r) \<in> set (stdout (run_build fs now))"
      using a warning_in_console [of _ "skill_sections skillContent" _ "rule_files fs"]
      by (simp add: out build_console)
    with w show "exit_code (run_build fs now) = 0
        \<and> written (run_build fs now) = Some (composed fs skillContent now)
        \<and> (\<forall>sec \<in> set (skill_sections skillContent). \<forall>r \<in> set (rules sec).
              rule_files fs (rule_file r) = None \<longrightarrow>
                warning_line (rule_file r) \<in> set (stdout (run_build fs now)))"
      by (simp add: run_build_exit run_build_written)
  qed
qed

theorem missing_rule_not_fatal_witness:
  "rule_files scenario_missing (js ''my-rule.md'') = None
   \<and> readRuleFile (rule_files scenario_missing) (js ''my-rule.md'') [] = Inr (None, [warning_line (js ''my-rule.md'')])
   \<and> skill_file scenario_missing = Some (File scenario_skill)
   \<and> all_readable scenario_missing scenario_skill
   \<and> exit_code (run_build scenario_missing build_time) = 0
   \<and> written (run_build scenario_missing build_time) = Some (js ''---\<newline>---\<newline>\<newline># Composio Agent Skills\<newline>\<newline>\<newline>\<newline>## Table of Contents\<newline>\<newline>1. [Example](#example)\<newline>   1.1. [My Rule](#my-rule)\<newline>\<newline>---\<newline>\<newline>## 1. Example\<newline>\<newline><a name='' @ [DQ] @ js ''example'' @ [DQ] @ js ''></a>\<newline>\<newline>### 1.1. My Rule\<newline>\<newline>_Rule file not found: my-rule.md_\<newline>\<newline>\<newline>---\<newline>\<newline>_This file was automatically generated from individual rule files on 2026-01-01T00:00:00.000Z_\<newline>_To update, run: `npm run build:agents`_\<newline>'')
   \<and> warning_line (js ''my-rule.md'') \<in> set (stdout (run_build scenario_missing build_time))"
proof -
  have f: "skill_file scenario_missing = Some (File scenario_skill)"
    and n: "rule_files scenario_missing (js ''my-rule.md'') = None"
    by (simp_all add: scenario_missing_def)
  note t = missing_rule_not_fatal [of scenario_missing "js ''my-rule.md''" "[]" build_time scenario_skill]
  from t n have "readRuleFile (rule_files scenario_missing) (js ''my-rule.md'') []
      = Inr (None, [warning_line (js ''my-rule.md'')])"
    by simp
  moreover from t f scenario_missing_readable
  have "exit_code (run_build scenario_missing build_time) = 0"
    and "written (run_build scenario_missing build_time)
      = Some (composed scenario_missing scenario_skill build_time)"
    and "\<forall>sec \<in> set (skill_sections scenario_skill). \<forall>r \<in> set (rules sec).
              rule_files scenario_missing (rule_file r) = None \<longrightarrow>
                warning_line (rule_file r) \<in> set (stdout (run_build scenario_missing build_time))"
    by blast+
  ultimately show ?thesis
    using f n scenario_missing_readable
    by (simp add: composed_scenario_missing sections_scenario)
qed

section \<open>Verification: frontmatter round trip\<close>















text \<open>A value between no-break spaces is trimmed like one between spaces.\<close>

lemma parse_line_no_break_space:
  "parse_line [] (js ''name:'' @ [0x00A0] @ js ''demo'' @ [0x00A0]) = [(js ''name'', js ''demo'')]"
  by code_simp





end
